theory Spec2Isabelle
  imports Main "HOL-Library.Word"
begin

unbundle bit_operations_syntax

section \<open>System Boot Manager for the i.MX21 boot monitor (sbm.c)\<close>

text \<open>
  A shallow embedding of \<^verbatim>\<open>sbm.c\<close>. The C types \<^verbatim>\<open>unsigned char\<close>,
  \<^verbatim>\<open>unsigned short\<close> and \<^verbatim>\<open>unsigned int\<close> are words of 8, 16 and 32 bits, so
  that every addition, subtraction and shift wraps as it does in C.
\<close>

type_synonym byte = "8 word"
type_synonym u16 = "16 word"
type_synonym u32 = "32 word"

subsection \<open>Constants and the byte-order macro\<close>

definition CHUNK_SIZE :: u32 where
  "CHUNK_SIZE = 4096"

definition DEFAULT_HIGHSPEED :: u32 where
  "DEFAULT_HIGHSPEED = 921600"

definition DEFAULT_TERMBAUD :: u32 where
  "DEFAULT_TERMBAUD = 230400"

definition IMX_SYNC :: u16 where
  "IMX_SYNC = 0x0505"

definition IMX_SREG :: u16 where
  "IMX_SREG = 0x0202"

definition IMX_DWNL :: u16 where
  "IMX_DWNL = 0x0404"

text \<open>
  \<^verbatim>\<open>IS_BIG_ENDIAN\<close> is commented out in the source, so the macro is the swapping one:
  \<^verbatim>\<open>((((d)&0xff)<<24)|(((d)&0xff00)<<8)|(((d)&0xff0000)>>8)|(((d)&0xff000000)>>24))\<close>.
\<close>

definition SWAPDWORD :: "u32 \<Rightarrow> u32" where
  "SWAPDWORD d =
     push_bit 24 (d AND 0xff) OR push_bit 8 (d AND 0xff00)
       OR drop_bit 8 (d AND 0xff0000) OR drop_bit 24 (d AND 0xff000000)"

subsection \<open>The packet structure and its memory image\<close>

text \<open>
  \<^verbatim>\<open>struct imx_packet\<close>, declared packed. The fields are prefixed, since
  \<^verbatim>\<open>type\<close>, \<^verbatim>\<open>end\<close> and \<^verbatim>\<open>length\<close> are taken in Isabelle.
\<close>

record imx_packet =
  pk_header :: u16
  pk_address :: u32
  pk_type :: byte
  pk_length :: u32
  pk_data :: u32
  pk_end :: byte

text \<open>
  \<^verbatim>\<open>write(fd,&pckt,sizeof(pckt))\<close> sends the structure as it lies in memory. On the
  little-endian host the source is configured for, a field lies least significant byte
  first; the structure is packed, so the fields follow each other with no padding.
\<close>

definition le16 :: "u16 \<Rightarrow> byte list" where
  "le16 h = [ucast h, ucast (drop_bit 8 h)]"

definition le32 :: "u32 \<Rightarrow> byte list" where
  "le32 w = [ucast w, ucast (drop_bit 8 w), ucast (drop_bit 16 w), ucast (drop_bit 24 w)]"

definition wire :: "imx_packet \<Rightarrow> byte list" where
  "wire p =
     le16 (pk_header p) @ le32 (pk_address p) @ [pk_type p] @ le32 (pk_length p)
       @ le32 (pk_data p) @ [pk_end p]"

subsection \<open>The serial channel\<close>

text \<open>
  The file descriptor of the serial port. What the device answers is an input of the
  model: \<open>rx\<close> lists the outcome of each future \<^verbatim>\<open>read(fd,&r,4)\<close>, \<open>Some w\<close> for
  four bytes holding the word \<open>w\<close> and \<open>None\<close> for a read that returns fewer than
  four bytes (the port is opened with \<^verbatim>\<open>VMIN = 0\<close>, \<^verbatim>\<open>VTIME = 1\<close>, so a read gives up
  after a tenth of a second). When \<open>rx\<close> is used up the device is silent and every read
  is short. \<open>trace\<close> records what the program did on the descriptor, oldest first.
\<close>

datatype event =
    Write "byte list"
  | Read4 "u32 option"
  | SetBaudRate u32
  | Progress u32 u32

record channel =
  rx :: "u32 option list"
  trace :: "event list"

definition log_event :: "event \<Rightarrow> channel \<Rightarrow> channel" where
  "log_event e ch = ch\<lparr>trace := trace ch @ [e]\<rparr>"

definition ch_write :: "byte list \<Rightarrow> channel \<Rightarrow> channel" where
  "ch_write bs ch = log_event (Write bs) ch"

definition ch_read4 :: "channel \<Rightarrow> u32 option \<times> channel" where
  "ch_read4 ch =
     (case rx ch of
        [] \<Rightarrow> (None, log_event (Read4 None) ch)
      | r # rs \<Rightarrow> (r, log_event (Read4 r) (ch\<lparr>rx := rs\<rparr>)))"

text \<open>
  \<^verbatim>\<open>set_baud\<close>: \<^verbatim>\<open>cfsetspeed\<close> and \<^verbatim>\<open>tcsetattr\<close> on the local port.
\<close>

definition set_baud :: "channel \<Rightarrow> u32 \<Rightarrow> channel" where
  "set_baud ch baud = log_event (SetBaudRate baud) ch"

subsection \<open>Results\<close>

text \<open>
  The C functions return 0 or -1 and say on the console which failure it was. The model
  keeps the branch taken as the error value: \<open>Timeout\<close> for \<^verbatim>\<open>failed (timeout)\<close>,
  \<open>ProtocolMismatch\<close> with the words read for \<^verbatim>\<open>failed (illegal response ...)\<close>,
  \<open>InvalidWidth\<close> for \<^verbatim>\<open>Illegal register size!\<close>, \<open>SourceUnavailable\<close> for
  \<^verbatim>\<open>Unable to open binary image\<close>, \<open>NoEntryAddress\<close> for \<^verbatim>\<open>No address specified\<close>,
  \<open>NotEnoughParameters\<close> and \<open>UnknownCommand\<close> for the two messages of the command loop.
  \<open>Inl e\<close> is the return value -1, \<open>Inr ()\<close> the return value 0.
\<close>

datatype error =
    Timeout
  | ProtocolMismatch "u32 list"
  | InvalidWidth
  | SourceUnavailable
  | NoEntryAddress
  | NotEnoughParameters
  | UnknownCommand string

type_synonym result = "error + unit"

definition rc :: "result \<Rightarrow> int" where
  "rc r = (case r of Inl e \<Rightarrow> -1 | Inr u \<Rightarrow> 0)"

subsection \<open>The protocol operations\<close>

definition sync_packet :: imx_packet where
  "sync_packet =
     \<lparr>pk_header = IMX_SYNC, pk_address = 0, pk_type = 0, pk_length = 0, pk_data = 0,
      pk_end = 0\<rparr>"

definition imx_sync :: "channel \<Rightarrow> result \<times> channel" where
  "imx_sync ch =
     (let ch1 = ch_write (wire sync_packet) ch;
          (response, ch2) = ch_read4 ch1
      in case response of
           Some r \<Rightarrow>
             if r = 0xf0f0f0f0 then (Inr (), ch2) else (Inl (ProtocolMismatch [r]), ch2)
         | None \<Rightarrow> (Inl Timeout, ch2))"

definition sreg_packet :: "u32 \<Rightarrow> u32 \<Rightarrow> u32 \<Rightarrow> imx_packet" where
  "sreg_packet addr len val =
     \<lparr>pk_header = IMX_SREG, pk_address = SWAPDWORD addr, pk_type = ucast len,
      pk_length = 0, pk_data = SWAPDWORD val, pk_end = 0\<rparr>"

definition imx_set_register ::
  "channel \<Rightarrow> u32 \<Rightarrow> u32 \<Rightarrow> u32 \<Rightarrow> bool \<Rightarrow> result \<times> channel" where
  "imx_set_register ch addr len val ignore =
     (if len \<noteq> 8 \<and> len \<noteq> 16 \<and> len \<noteq> 32 then (Inl InvalidWidth, ch)
      else
        let ch1 = ch_write (wire (sreg_packet addr len val)) ch;
            (response_b, ch2) = ch_read4 ch1
        in (case response_b of
              None \<Rightarrow> (if ignore then Inr () else Inl Timeout, ch2)
            | Some b \<Rightarrow>
                (let (response_c, ch3) = ch_read4 ch2
                 in (case response_c of
                       None \<Rightarrow> (if ignore then Inr () else Inl Timeout, ch3)
                     | Some c \<Rightarrow>
                         if b = 0x56787856 \<and> c = 0x128a8a12 then (Inr (), ch3)
                         else (if ignore then Inr () else Inl (ProtocolMismatch [b, c]),
                               ch3)))))"

text \<open>
  \<^verbatim>\<open>imx_set_baud\<close> calls \<^verbatim>\<open>imx_set_register\<close> twice and drops both return values,
  calls \<^verbatim>\<open>set_baud\<close> and returns 0.
\<close>

definition imx_set_baud :: "channel \<Rightarrow> u32 \<Rightarrow> result \<times> channel" where
  "imx_set_baud ch baud =
     (let ch1 = snd (imx_set_register ch 0x1000A0A4 32 (baud div 100 - 1) False);
          ch2 = snd (imx_set_register ch1 0x1000A0A8 32 (10000 - 1) True);
          ch3 = set_baud ch2 baud
      in (Inr (), ch3))"

text \<open>
  \<^verbatim>\<open>imx_setup_system\<close> is straight-line code: twelve calls of \<^verbatim>\<open>imx_set_register\<close>,
  a \<^verbatim>\<open>for\<close> loop making the same call eight times, then three more calls. Each call is
  kept as its four arguments (address, width, value, ignore flag) in the order of the
  source; no return value is looked at, and the function returns 0.
\<close>

type_synonym sreg_call = "u32 \<times> u32 \<times> u32 \<times> bool"

definition setup_calls :: "sreg_call list" where
  "setup_calls =
     [(0x10000000, 32, 0x00040304, False),
      (0x10020000, 32, 0x00000000, False),
      (0x10000004, 32, 0xfffbfcfb, False),
      (0x10020004, 32, 0xffffffff, False),
      (0xdf001008, 32, 0x00002000, False),
      (0xdf00100c, 32, 0x11118501, False),
      (0x10015520, 32, 0x00000000, False),
      (0x10015538, 32, 0x00000000, False),
      (0x1003f300, 32, 0x00123456, False),
      (0xdf000000, 32, 0x92129399, False),
      (0xc0200000, 32, 0x00000000, False),
      (0xdf000000, 32, 0xa2120300, False)]
     @ replicate 8 (0xc0000000, 32, 0x00000000, False)
     @ [(0xdf000000, 32, 0xb2120300, False),
        (0xc0119800, 32, 0x00000000, False),
        (0xdf000000, 32, 0x8212f339, False)]"

definition call_ignore :: "sreg_call \<Rightarrow> bool" where
  "call_ignore c = (case c of (addr, len, val, ignore) \<Rightarrow> ignore)"

definition call_width :: "sreg_call \<Rightarrow> u32" where
  "call_width c = (case c of (addr, len, val, ignore) \<Rightarrow> len)"

definition do_call :: "channel \<Rightarrow> sreg_call \<Rightarrow> result \<times> channel" where
  "do_call ch c = (case c of (addr, len, val, ignore) \<Rightarrow> imx_set_register ch addr len val ignore)"

fun replay :: "sreg_call list \<Rightarrow> channel \<Rightarrow> channel" where
  "replay [] ch = ch"
| "replay (c # cs) ch = replay cs (snd (do_call ch c))"

definition imx_setup_system :: "channel \<Rightarrow> result \<times> channel" where
  "imx_setup_system ch = (Inr (), replay setup_calls ch)"

text \<open>
  \<^verbatim>\<open>imx_run\<close>: a packet with the download opcode and \<^verbatim>\<open>end = 0xaa\<close>, one response
  word, then a packet with the sync opcode and a second response word.
\<close>

definition run_packet :: "u32 \<Rightarrow> imx_packet" where
  "run_packet addr =
     \<lparr>pk_header = IMX_DWNL, pk_address = SWAPDWORD addr, pk_type = 0, pk_length = 0,
      pk_data = 0, pk_end = 0xaa\<rparr>"

definition imx_run :: "channel \<Rightarrow> u32 \<Rightarrow> result \<times> channel" where
  "imx_run ch addr =
     (let ch1 = ch_write (wire (run_packet addr)) ch;
          (response_b, ch2) = ch_read4 ch1
      in (case response_b of
            None \<Rightarrow> (Inl Timeout, ch2)
          | Some b \<Rightarrow>
              if b = 0x56787856 then
                (let ch3 = ch_write (wire sync_packet) ch2;
                     (response_d, ch4) = ch_read4 ch3
                 in (case response_d of
                       None \<Rightarrow> (Inl Timeout, ch4)
                     | Some d \<Rightarrow>
                         if d = 0x08888888 \<or> d = 0x88888888 then (Inr (), ch4)
                         else (Inl (ProtocolMismatch [d]), ch4)))
              else (Inl (ProtocolMismatch [b]), ch2)))"

text \<open>
  \<^verbatim>\<open>imx_download\<close>. The file is its bytes, or \<open>None\<close> when \<^verbatim>\<open>fopen\<close> fails.
  \<^verbatim>\<open>size\<close> is an \<^verbatim>\<open>unsigned int\<close> assigned from \<^verbatim>\<open>ftell\<close>, so it is the length of
  the file cut to 32 bits. \<^verbatim>\<open>fread\<close> continues where the last block ended, which is
  offset \<open>i\<close>. The loop has no increment clause: \<open>i\<close> moves by \<open>to_write\<close> in the body.
  The variable \<^verbatim>\<open>size\<close> is \<open>fsize\<close> here.
\<close>

definition dwnl_packet :: "u32 \<Rightarrow> u32 \<Rightarrow> imx_packet" where
  "dwnl_packet a to_write =
     \<lparr>pk_header = IMX_DWNL, pk_address = SWAPDWORD a, pk_type = 0,
      pk_length = SWAPDWORD to_write, pk_data = 0, pk_end = 0\<rparr>"

definition chunk :: "u32 \<Rightarrow> u32 \<Rightarrow> u32" where
  "chunk fsize i = (if fsize - i > CHUNK_SIZE then CHUNK_SIZE else fsize - i)"

function download_loop ::
  "channel \<Rightarrow> byte list \<Rightarrow> u32 \<Rightarrow> u32 \<Rightarrow> u32 \<Rightarrow> result \<times> channel" where
  "download_loop ch bin addr fsize i =
     (if i < fsize then
        (let to_write = chunk fsize i;
             ch1 = ch_write (wire (dwnl_packet (addr + i) to_write)) ch;
             (response_b, ch2) = ch_read4 ch1
         in (case response_b of
               None \<Rightarrow> (Inl Timeout, ch2)
             | Some b \<Rightarrow>
                 if b \<noteq> 0x56787856 then (Inl (ProtocolMismatch [b]), ch2)
                 else
                   (let ch3 = ch_write (take (unat to_write) (drop (unat i) bin)) ch2;
                        i' = i + to_write;
                        ch4 = log_event (Progress i' fsize) ch3
                    in download_loop ch4 bin addr fsize i')))
      else (Inr (), ch))"
  by pat_completeness auto

termination download_loop
proof (relation "measure (\<lambda>(ch, bin, addr, fsize, i). unat fsize - unat i)")
  show "wf (measure (\<lambda>(ch, bin, addr, fsize, i). unat fsize - unat i))"
    by simp
next
  fix ch :: channel and bin :: "byte list" and addr fsize i to_write :: u32
    and ch1 :: channel and p :: "u32 option \<times> channel" and response_b :: "u32 option"
    and ch2 :: channel and b :: u32 and ch3 :: channel and i' :: u32 and ch4 :: channel
  assume less: "i < fsize" and tw: "to_write = chunk fsize i" and i': "i' = i + to_write"
  have pos: "0 < unat (chunk fsize i)"
    using less unfolding chunk_def CHUNK_SIZE_def by (auto simp: unat_gt_0)
  have le: "unat i + unat (chunk fsize i) \<le> unat fsize"
    using less unfolding chunk_def CHUNK_SIZE_def
    by (auto simp: unat_sub word_less_nat_alt word_le_nat_alt)
  have "unat i + unat (chunk fsize i) < 2 ^ LENGTH(32)"
    using le unsigned_less [of fsize] by (rule le_less_trans)
  then have step: "unat (i + chunk fsize i) = unat i + unat (chunk fsize i)"
    by (simp only: unat_add_lem)
  have "unat fsize - unat i' < unat fsize - unat i"
    using pos le less by (simp add: i' tw step word_less_nat_alt)
  then show "((ch4, bin, addr, fsize, i'), (ch, bin, addr, fsize, i))
      \<in> measure (\<lambda>(ch, bin, addr, fsize, i). unat fsize - unat i)"
    by simp
qed

declare download_loop.simps [simp del]

definition imx_download :: "channel \<Rightarrow> byte list option \<Rightarrow> u32 \<Rightarrow> result \<times> channel" where
  "imx_download ch file addr =
     (case file of
        None \<Rightarrow> (Inl SourceUnavailable, ch)
      | Some bin \<Rightarrow> download_loop ch bin addr (of_nat (length bin)) 0)"

subsection \<open>The command loop of \<^verbatim>\<open>main\<close>\<close>

text \<open>
  The local variables of \<^verbatim>\<open>main\<close> that live across commands: the open port, the
  flag \<^verbatim>\<open>synced\<close> and the address \<^verbatim>\<open>entry\<close>, which start as \<^verbatim>\<open>0\<close>.
\<close>

record session =
  port :: channel
  synced :: bool
  entry :: u32

definition initial_session :: "channel \<Rightarrow> session" where
  "initial_session ch = \<lparr>port = ch, synced = False, entry = 0\<rparr>"

text \<open>
  What one command of the loop ends with: \<^verbatim>\<open>continue\<close> after moving \<open>i\<close> forward by
  some number of arguments, \<^verbatim>\<open>break\<close> after a message, or the call of \<^verbatim>\<open>terminal\<close>,
  whose \<^verbatim>\<open>while(1)\<close> never returns.
\<close>

datatype step = Next nat | Break error | Relay

datatype outcome = Completed | Aborted error | EnteredTerminal

text \<open>
  The block \<^verbatim>\<open>if(!synced) { if(imx_sync(port)) break; synced = 1; }\<close> that opens the
  commands \<^verbatim>\<open>set\<close>, \<^verbatim>\<open>download\<close>, \<^verbatim>\<open>setup\<close> and \<^verbatim>\<open>baud\<close>.
\<close>

definition ensure_synced :: "session \<Rightarrow> result \<times> session" where
  "ensure_synced st =
     (if \<not> synced st then
        (case imx_sync (port st) of
           (Inl e, ch) \<Rightarrow> (Inl e, st\<lparr>port := ch\<rparr>)
         | (Inr u, ch) \<Rightarrow> (Inr (), st\<lparr>port := ch, synced := True\<rparr>))
      else (Inr (), st))"

text \<open>
  In what follows \<open>args\<close> is \<^verbatim>\<open>argv\<close> from index \<open>i\<close> on, so \<^verbatim>\<open>argc < i+4\<close> is
  \<open>length args < 4\<close> and \<^verbatim>\<open>argv[i+1]\<close> is \<open>args ! 1\<close>. The C library's
  \<^verbatim>\<open>strtoul(s,NULL,0)\<close>, cut to \<^verbatim>\<open>unsigned int\<close>, is the parameter \<open>strtoul\<close>; the
  file system seen by \<^verbatim>\<open>fopen\<close> is the parameter \<open>fs\<close>.
\<close>

definition do_set :: "(string \<Rightarrow> u32) \<Rightarrow> session \<Rightarrow> string list \<Rightarrow> step \<times> session" where
  "do_set strtoul st args =
     (if length args < 4 then (Break NotEnoughParameters, st)
      else
        (case ensure_synced st of
           (Inl e, st1) \<Rightarrow> (Break e, st1)
         | (Inr u, st1) \<Rightarrow>
             (let addr = strtoul (args ! 1);
                  len = strtoul (args ! 2);
                  val = strtoul (args ! 3)
              in (case imx_set_register (port st1) addr len val False of
                    (Inl e, ch) \<Rightarrow> (Break e, st1\<lparr>port := ch\<rparr>)
                  | (Inr u, ch) \<Rightarrow> (Next 4, st1\<lparr>port := ch\<rparr>)))))"

definition do_download ::
  "(string \<Rightarrow> u32) \<Rightarrow> (string \<Rightarrow> byte list option) \<Rightarrow> session \<Rightarrow> string list \<Rightarrow> step \<times> session"
  where
  "do_download strtoul fs st args =
     (if length args < 3 then (Break NotEnoughParameters, st)
      else
        (case ensure_synced st of
           (Inl e, st1) \<Rightarrow> (Break e, st1)
         | (Inr u, st1) \<Rightarrow>
             (let addr = strtoul (args ! 2)
              in (case imx_download (port st1) (fs (args ! 1)) addr of
                    (Inl e, ch) \<Rightarrow> (Break e, st1\<lparr>port := ch\<rparr>)
                  | (Inr u, ch) \<Rightarrow> (Next 3, st1\<lparr>port := ch, entry := addr\<rparr>)))))"

definition do_sync :: "session \<Rightarrow> step \<times> session" where
  "do_sync st =
     (case imx_sync (port st) of
        (Inl e, ch) \<Rightarrow> (Break e, st\<lparr>port := ch\<rparr>)
      | (Inr u, ch) \<Rightarrow> (Next 1, st\<lparr>port := ch, synced := True\<rparr>))"

definition do_setup :: "session \<Rightarrow> step \<times> session" where
  "do_setup st =
     (case ensure_synced st of
        (Inl e, st1) \<Rightarrow> (Break e, st1)
      | (Inr u, st1) \<Rightarrow>
          (case imx_setup_system (port st1) of
             (Inl e, ch) \<Rightarrow> (Break e, st1\<lparr>port := ch\<rparr>)
           | (Inr u, ch) \<Rightarrow> (Next 1, st1\<lparr>port := ch\<rparr>)))"

text \<open>
  An optional numeric argument: absent when the command is the last word, and not
  consumed when \<^verbatim>\<open>strtoul\<close> gives 0 for the next word (then the default is used and
  the word is left to be read as the next command). The result is the value and the
  number of words the command takes.
\<close>

definition optional_arg :: "(string \<Rightarrow> u32) \<Rightarrow> string list \<Rightarrow> u32 \<Rightarrow> u32 \<times> nat" where
  "optional_arg strtoul args dflt =
     (if length args < 2 then (dflt, 1)
      else
        (let v = strtoul (args ! 1)
         in if v = 0 then (dflt, 1) else (v, 2)))"

definition do_baud :: "(string \<Rightarrow> u32) \<Rightarrow> session \<Rightarrow> string list \<Rightarrow> step \<times> session" where
  "do_baud strtoul st args =
     (case ensure_synced st of
        (Inl e, st1) \<Rightarrow> (Break e, st1)
      | (Inr u, st1) \<Rightarrow>
          (let (baud, n) = optional_arg strtoul args DEFAULT_HIGHSPEED
           in (case imx_set_baud (port st1) baud of
                 (Inl e, ch) \<Rightarrow> (Break e, st1\<lparr>port := ch\<rparr>)
               | (Inr u, ch) \<Rightarrow> (Next n, st1\<lparr>port := ch\<rparr>))))"

text \<open>
  The command \<^verbatim>\<open>run\<close>. Its \<^verbatim>\<open>if(!synced)\<close> block is inside a comment in the source,
  so the command starts with the address.
\<close>

definition do_run :: "(string \<Rightarrow> u32) \<Rightarrow> session \<Rightarrow> string list \<Rightarrow> step \<times> session" where
  "do_run strtoul st args =
     (let (addr, n) = optional_arg strtoul args (entry st)
      in if addr = 0 then (Break NoEntryAddress, st)
         else
           (case imx_run (port st) addr of
              (Inl e, ch) \<Rightarrow> (Break e, st\<lparr>port := ch\<rparr>)
            | (Inr u, ch) \<Rightarrow> (Next n, st\<lparr>port := ch\<rparr>)))"

definition do_terminal :: "(string \<Rightarrow> u32) \<Rightarrow> session \<Rightarrow> string list \<Rightarrow> step \<times> session" where
  "do_terminal strtoul st args =
     (let (baud, n) = optional_arg strtoul args DEFAULT_TERMBAUD
      in (Relay, st\<lparr>port := set_baud (port st) baud\<rparr>))"

definition dispatch ::
  "(string \<Rightarrow> u32) \<Rightarrow> (string \<Rightarrow> byte list option) \<Rightarrow> session \<Rightarrow> string list \<Rightarrow> step \<times> session"
  where
  "dispatch strtoul fs st args =
     (let cmd = hd args
      in if cmd = ''set'' then do_set strtoul st args
         else if cmd = ''download'' then do_download strtoul fs st args
         else if cmd = ''sync'' then do_sync st
         else if cmd = ''setup'' then do_setup st
         else if cmd = ''baud'' then do_baud strtoul st args
         else if cmd = ''run'' then do_run strtoul st args
         else if cmd = ''terminal'' then do_terminal strtoul st args
         else (Break (UnknownCommand cmd), st))"

function main_loop ::
  "(string \<Rightarrow> u32) \<Rightarrow> (string \<Rightarrow> byte list option) \<Rightarrow> session \<Rightarrow> string list
     \<Rightarrow> outcome \<times> session"
  where
  "main_loop strtoul fs st args =
     (if args = [] then (Completed, st)
      else
        (case dispatch strtoul fs st args of
           (Next n, st') \<Rightarrow> main_loop strtoul fs st' (drop n args)
         | (Break e, st') \<Rightarrow> (Aborted e, st')
         | (Relay, st') \<Rightarrow> (EnteredTerminal, st')))"
  by pat_completeness auto

termination main_loop
proof (relation "measure (\<lambda>(strtoul, fs, st, args). length args)")
  show "wf (measure (\<lambda>(strtoul, fs, st, args). length args))"
    by simp
next
  fix strtoul :: "string \<Rightarrow> u32" and fs :: "string \<Rightarrow> byte list option"
    and st :: session and args :: "string list"
    and a :: step and st' :: session and n :: nat
  assume ne: "args \<noteq> []" and p: "(a, st') = dispatch strtoul fs st args"
    and a: "a = Next n"
  have opt: "\<And>d v k. optional_arg strtoul args d = (v, k) \<Longrightarrow> 0 < k"
    by (auto simp: optional_arg_def Let_def split: if_splits)
  have d: "dispatch strtoul fs st args = (Next n, st')"
    using p a by simp
  have "0 < n"
    using d opt
    by (auto simp: dispatch_def do_set_def do_download_def do_sync_def do_setup_def
        do_baud_def do_run_def do_terminal_def Let_def
        split: if_splits prod.splits sum.splits)
  then have "length (drop n args) < length args"
    using ne by simp
  then show "((strtoul, fs, st', drop n args), (strtoul, fs, st, args))
      \<in> measure (\<lambda>(strtoul, fs, st, args). length args)"
    by simp
qed

declare main_loop.simps [simp del]

subsection \<open>Reading a trace\<close>

fun is_write :: "event \<Rightarrow> bool" where
  "is_write (Write bs) = True"
| "is_write e = False"

fun is_set_baud :: "event \<Rightarrow> bool" where
  "is_set_baud (SetBaudRate b) = True"
| "is_set_baud e = False"

text \<open>
  The blocks of a transfer in closed form, for a source of \<open>S\<close> bytes: how many there
  are, how long block \<open>k\<close> is, and the four events of block \<open>k\<close> when its header is
  acknowledged (header packet, acknowledgment, payload, progress report).
\<close>

definition n_blocks :: "nat \<Rightarrow> nat" where
  "n_blocks S = (S + 4095) div 4096"

definition blk_len :: "nat \<Rightarrow> nat \<Rightarrow> nat" where
  "blk_len S k = min 4096 (S - 4096 * k)"

definition block_events :: "byte list \<Rightarrow> u32 \<Rightarrow> nat \<Rightarrow> nat \<Rightarrow> event list" where
  "block_events bin addr S k =
     [Write (wire (dwnl_packet (addr + of_nat (4096 * k)) (of_nat (blk_len S k)))),
      Read4 (Some 0x56787856),
      Write (take (blk_len S k) (drop (4096 * k) bin)),
      Progress (of_nat (4096 * k + blk_len S k)) (of_nat S)]"

text \<open>
  For a transfer against any device: the value \<^verbatim>\<open>size\<close> holds for a file (its
  length cut to 32 bits), how many of the first \<open>n\<close> reads are the acknowledgment, the
  outcome of read number \<open>g\<close> (short once the device has gone silent), and the failure
  \<^verbatim>\<open>imx_download\<close> reports for a read that is not the acknowledgment.
\<close>

definition file_size :: "byte list \<Rightarrow> nat" where
  "file_size bin = unat (of_nat (length bin) :: u32)"

definition good_acks :: "nat \<Rightarrow> u32 option list \<Rightarrow> nat" where
  "good_acks n rs = length (takeWhile (\<lambda>r. r = Some 0x56787856) (take n rs))"

definition nth_read :: "u32 option list \<Rightarrow> nat \<Rightarrow> u32 option" where
  "nth_read rs g = (if g < length rs then rs ! g else None)"

definition ack_error :: "u32 option \<Rightarrow> error" where
  "ack_error r = (case r of None \<Rightarrow> Timeout | Some b \<Rightarrow> ProtocolMismatch [b])"

definition call_packet :: "sreg_call \<Rightarrow> imx_packet" where
  "call_packet c = (case c of (addr, len, val, ignore) \<Rightarrow> sreg_packet addr len val)"

text \<open>Concrete inputs used to run the model: a device, a number parser, a file system.\<close>

definition device :: "u32 option list \<Rightarrow> channel" where
  "device answers = \<lparr>rx = answers, trace = []\<rparr>"

definition strtoul_ex :: "string \<Rightarrow> u32" where
  "strtoul_ex s =
     (if s = ''0xc0000000'' then 0xC0000000
      else if s = ''32'' then 32
      else if s = ''9599'' then 9599
      else if s = ''0x1000A0A4'' then 0x1000A0A4
      else 0)"

definition fs_ex :: "string \<Rightarrow> byte list option" where
  "fs_ex name = (if name = ''img.bin'' then Some (replicate 4097 0x5A) else None)"

section \<open>Properties\<close>

subsection \<open>The byte-order swap and the memory image\<close>

lemma swap_masks:
  "(0xff::u32) = mask 8" "(0xff00::u32) = push_bit 8 (mask 8)"
  "(0xff0000::u32) = push_bit 16 (mask 8)" "(0xff000000::u32) = push_bit 24 (mask 8)"
  by (simp_all add: mask_eq_exp_minus_1 push_bit_eq_mult)

lemma bit_SWAPDWORD:
  "bit (SWAPDWORD d) n \<longleftrightarrow>
     n < 32 \<and> bit d (if n < 8 then n + 24 else if n < 16 then n + 8
                      else if n < 24 then n - 8 else n - 24)"
  unfolding SWAPDWORD_def swap_masks
  by (auto simp: bit_simps add.commute dest: bit_imp_le_length)



lemma le32_SWAPDWORD: "le32 (SWAPDWORD d) = rev (le32 d)"
  unfolding le32_def
  apply simp
  apply (intro conjI bit_word_eqI)
     apply (auto simp: bit_simps bit_SWAPDWORD add.commute)
  done


lemma wire_sync: "wire sync_packet = [5, 5, 0, 0, 0, 0, 0, 0, 0, 0, 0, 0, 0, 0, 0, 0]"
  by (simp add: wire_def le16_def le32_def sync_packet_def IMX_SYNC_def)

lemma le32_0: "le32 0 = [0, 0, 0, 0]"
  by (simp add: le32_def)

lemma wire_sreg:
  "wire (sreg_packet addr len val) =
     [2, 2] @ rev (le32 addr) @ [ucast len] @ [0, 0, 0, 0] @ rev (le32 val) @ [0]"
  by (simp add: wire_def sreg_packet_def le32_SWAPDWORD le32_0 IMX_SREG_def le16_def)

lemma wire_dwnl:
  "wire (dwnl_packet a n) =
     [4, 4] @ rev (le32 a) @ [0] @ rev (le32 n) @ [0, 0, 0, 0] @ [0]"
  by (simp add: wire_def dwnl_packet_def le32_SWAPDWORD le32_0 IMX_DWNL_def le16_def)

lemma wire_run:
  "wire (run_packet addr) =
     [4, 4] @ rev (le32 addr) @ [0] @ [0, 0, 0, 0] @ [0, 0, 0, 0] @ [0xaa]"
  by (simp add: wire_def run_packet_def le32_SWAPDWORD le32_0 IMX_DWNL_def le16_def)



subsection \<open>Synchronisation\<close>

text \<open>
  Claim C5. \<^verbatim>\<open>imx_sync\<close> writes one packet, the sync header followed by fourteen zero
  bytes, and reads one word. It succeeds exactly when that word is \<open>0xf0f0f0f0\<close>;
  another word is a \<open>ProtocolMismatch\<close> carrying the word, and a short read (also from a
  silent device) is a \<open>Timeout\<close>.
\<close>

theorem imx_sync_contract:
  "imx_sync ch =
     (case rx ch of
        [] \<Rightarrow> (Inl Timeout, ch\<lparr>trace := trace ch @ [Write (wire sync_packet), Read4 None]\<rparr>)
      | None # rs \<Rightarrow>
          (Inl Timeout,
           ch\<lparr>rx := rs, trace := trace ch @ [Write (wire sync_packet), Read4 None]\<rparr>)
      | Some w # rs \<Rightarrow>
          (if w = 0xf0f0f0f0 then Inr () else Inl (ProtocolMismatch [w]),
           ch\<lparr>rx := rs, trace := trace ch @ [Write (wire sync_packet), Read4 (Some w)]\<rparr>))
   \<and> wire sync_packet = [5, 5, 0, 0, 0, 0, 0, 0, 0, 0, 0, 0, 0, 0, 0, 0]
   \<and> (fst (imx_sync ch) = Inr ()) = (take 1 (rx ch) = [Some 0xf0f0f0f0])"
  by (simp add: imx_sync_def ch_write_def ch_read4_def log_event_def wire_sync
      split: list.splits option.splits)

theorem imx_sync_contract_example:
  "imx_sync (device [Some 0xf0f0f0f0]) =
     (Inr (), \<lparr>rx = [], trace = [Write [5, 5, 0, 0, 0, 0, 0, 0, 0, 0, 0, 0, 0, 0, 0, 0],
                                  Read4 (Some 0xf0f0f0f0)]\<rparr>)
   \<and> fst (imx_sync (device [Some 0x0f0f0f0f])) = Inl (ProtocolMismatch [0x0f0f0f0f])
   \<and> fst (imx_sync (device [None, Some 0xf0f0f0f0])) = Inl Timeout
   \<and> fst (imx_sync (device [])) = Inl Timeout"
  using imx_sync_contract [of "device [Some 0xf0f0f0f0]"]
    imx_sync_contract [of "device [Some 0x0f0f0f0f]"]
    imx_sync_contract [of "device [None, Some 0xf0f0f0f0]"]
    imx_sync_contract [of "device []"]
  by (simp add: device_def)

subsection \<open>Register writes\<close>

text \<open>
  Claim C6. With a width other than 8, 16 and 32, \<^verbatim>\<open>imx_set_register\<close> fails with
  \<open>InvalidWidth\<close> and leaves the channel as it was: nothing is written and nothing is
  read. With one of the three widths and a device that answers \<open>0x56787856\<close> then
  \<open>0x128a8a12\<close>, it succeeds, having written the one packet and read the two words.
\<close>

theorem imx_set_register_contract:
  "(len \<noteq> 8 \<and> len \<noteq> 16 \<and> len \<noteq> 32 \<longrightarrow>
      imx_set_register ch addr len val ignore = (Inl InvalidWidth, ch))
   \<and> ((len = 8 \<or> len = 16 \<or> len = 32)
        \<and> take 2 (rx ch) = [Some 0x56787856, Some 0x128a8a12] \<longrightarrow>
      imx_set_register ch addr len val ignore =
        (Inr (), ch\<lparr>rx := drop 2 (rx ch),
                      trace := trace ch @ [Write (wire (sreg_packet addr len val)),
                                 Read4 (Some 0x56787856), Read4 (Some 0x128a8a12)]\<rparr>))"
  by (cases "rx ch"; cases "tl (rx ch)")
     (auto simp: imx_set_register_def ch_write_def ch_read4_def log_event_def Let_def)

theorem imx_set_register_contract_witness:
  "imx_set_register (device [Some 0x56787856, Some 0x128a8a12]) 0x1000A0A4 24 9599 False =
     (Inl InvalidWidth, device [Some 0x56787856, Some 0x128a8a12])
   \<and> imx_set_register (device [Some 0x56787856, Some 0x128a8a12]) 0x1000A0A4 32 9599 False =
     (Inr (), \<lparr>rx = [],
              trace = [Write [2, 2, 0x10, 0, 0xA0, 0xA4, 32, 0, 0, 0, 0, 0, 0, 0x25, 0x7F, 0],
                       Read4 (Some 0x56787856), Read4 (Some 0x128a8a12)]\<rparr>)"
  using imx_set_register_contract
      [of 24 "device [Some 0x56787856, Some 0x128a8a12]" "0x1000A0A4" 9599 False]
    imx_set_register_contract
      [of 32 "device [Some 0x56787856, Some 0x128a8a12]" "0x1000A0A4" 9599 False]
  by (simp add: device_def wire_sreg le32_def)

subsection \<open>Running code\<close>

text \<open>
  Claim C7. \<^verbatim>\<open>imx_run\<close> writes a packet with the download header, the address most
  significant byte first, zeros, and \<open>0xaa\<close> as its last byte, and reads one word. A
  short read is a \<open>Timeout\<close>, a word other than \<open>0x56787856\<close> a \<open>ProtocolMismatch\<close>,
  and in both cases nothing more is sent. Otherwise it writes a sync packet and reads a
  second word: a short read is a \<open>Timeout\<close>, \<open>0x08888888\<close> and \<open>0x88888888\<close> are
  success, any other word is a \<open>ProtocolMismatch\<close>. The command \<^verbatim>\<open>run\<close> of the loop
  never changes \<open>synced\<close>.
\<close>

theorem imx_run_exchange:
  "imx_run ch addr =
     (case rx ch of
        [] \<Rightarrow>
          (Inl Timeout, ch\<lparr>trace := trace ch @ [Write (wire (run_packet addr)), Read4 None]\<rparr>)
      | None # rs \<Rightarrow>
          (Inl Timeout,
           ch\<lparr>rx := rs, trace := trace ch @ [Write (wire (run_packet addr)), Read4 None]\<rparr>)
      | Some b # rs \<Rightarrow>
          if b = 0x56787856 then
            (case rs of
               [] \<Rightarrow>
                 (Inl Timeout,
                  ch\<lparr>rx := [],
                     trace := trace ch @ [Write (wire (run_packet addr)), Read4 (Some b),
                                Write (wire sync_packet), Read4 None]\<rparr>)
             | None # rs' \<Rightarrow>
                 (Inl Timeout,
                  ch\<lparr>rx := rs',
                     trace := trace ch @ [Write (wire (run_packet addr)), Read4 (Some b),
                                Write (wire sync_packet), Read4 None]\<rparr>)
             | Some d # rs' \<Rightarrow>
                 (if d = 0x08888888 \<or> d = 0x88888888 then Inr ()
                  else Inl (ProtocolMismatch [d]),
                  ch\<lparr>rx := rs',
                     trace := trace ch @ [Write (wire (run_packet addr)), Read4 (Some b),
                                Write (wire sync_packet), Read4 (Some d)]\<rparr>))
          else
            (Inl (ProtocolMismatch [b]),
             ch\<lparr>rx := rs,
                trace := trace ch @ [Write (wire (run_packet addr)), Read4 (Some b)]\<rparr>))
   \<and> wire (run_packet addr) =
       [4, 4] @ rev (le32 addr) @ [0] @ [0, 0, 0, 0] @ [0, 0, 0, 0] @ [0xaa]
   \<and> wire sync_packet = [5, 5, 0, 0, 0, 0, 0, 0, 0, 0, 0, 0, 0, 0, 0, 0]
   \<and> synced (snd (do_run strtoul st args)) = synced st"
proof -
  have "synced (snd (do_run strtoul st args)) = synced st"
    by (simp add: do_run_def Let_def split: prod.splits sum.splits)
  moreover have "imx_run ch addr =
     (case rx ch of
        [] \<Rightarrow>
          (Inl Timeout, ch\<lparr>trace := trace ch @ [Write (wire (run_packet addr)), Read4 None]\<rparr>)
      | None # rs \<Rightarrow>
          (Inl Timeout,
           ch\<lparr>rx := rs, trace := trace ch @ [Write (wire (run_packet addr)), Read4 None]\<rparr>)
      | Some b # rs \<Rightarrow>
          if b = 0x56787856 then
            (case rs of
               [] \<Rightarrow>
                 (Inl Timeout,
                  ch\<lparr>rx := [],
                     trace := trace ch @ [Write (wire (run_packet addr)), Read4 (Some b),
                                Write (wire sync_packet), Read4 None]\<rparr>)
             | None # rs' \<Rightarrow>
                 (Inl Timeout,
                  ch\<lparr>rx := rs',
                     trace := trace ch @ [Write (wire (run_packet addr)), Read4 (Some b),
                                Write (wire sync_packet), Read4 None]\<rparr>)
             | Some d # rs' \<Rightarrow>
                 (if d = 0x08888888 \<or> d = 0x88888888 then Inr ()
                  else Inl (ProtocolMismatch [d]),
                  ch\<lparr>rx := rs',
                     trace := trace ch @ [Write (wire (run_packet addr)), Read4 (Some b),
                                Write (wire sync_packet), Read4 (Some d)]\<rparr>))
          else
            (Inl (ProtocolMismatch [b]),
             ch\<lparr>rx := rs,
                trace := trace ch @ [Write (wire (run_packet addr)), Read4 (Some b)]\<rparr>))"
    by (simp add: imx_run_def ch_write_def ch_read4_def log_event_def
        split: list.splits option.splits)
  ultimately show ?thesis
    by (simp only: wire_run wire_sync simp_thms)
qed

theorem imx_run_exchange_example:
  "imx_run (device [Some 0x56787856, Some 0x88888888]) 0xC0000000 =
     (Inr (), \<lparr>rx = [],
              trace = [Write [4, 4, 0xC0, 0, 0, 0, 0, 0, 0, 0, 0, 0, 0, 0, 0, 0xaa],
                       Read4 (Some 0x56787856),
                       Write [5, 5, 0, 0, 0, 0, 0, 0, 0, 0, 0, 0, 0, 0, 0, 0],
                       Read4 (Some 0x88888888)]\<rparr>)
   \<and> fst (imx_run (device [Some 0x56787856, Some 0x08888888]) 0xC0000000) = Inr ()
   \<and> fst (imx_run (device [Some 0x56787856, Some 0xf0f0f0f0]) 0xC0000000) =
       Inl (ProtocolMismatch [0xf0f0f0f0])
   \<and> fst (imx_run (device [Some 0x56787856]) 0xC0000000) = Inl Timeout
   \<and> imx_run (device [Some 0xf0f0f0f0, Some 0x88888888]) 0xC0000000 =
       (Inl (ProtocolMismatch [0xf0f0f0f0]),
        \<lparr>rx = [Some 0x88888888],
         trace = [Write [4, 4, 0xC0, 0, 0, 0, 0, 0, 0, 0, 0, 0, 0, 0, 0, 0xaa],
                  Read4 (Some 0xf0f0f0f0)]\<rparr>)"
  using imx_run_exchange [of "device [Some 0x56787856, Some 0x88888888]" "0xC0000000"]
    imx_run_exchange [of "device [Some 0x56787856, Some 0x08888888]" "0xC0000000"]
    imx_run_exchange [of "device [Some 0x56787856, Some 0xf0f0f0f0]" "0xC0000000"]
    imx_run_exchange [of "device [Some 0x56787856]" "0xC0000000"]
    imx_run_exchange [of "device [Some 0xf0f0f0f0, Some 0x88888888]" "0xC0000000"]
  by (simp add: device_def le32_def)

subsection \<open>Composite operations: baud rate and SDRAM setup\<close>

lemma sreg_writes:
  "filter is_write (trace (snd (imx_set_register ch addr len val ignore))) =
     filter is_write (trace ch)
       @ (if len \<noteq> 8 \<and> len \<noteq> 16 \<and> len \<noteq> 32 then []
          else [Write (wire (sreg_packet addr len val))])"
  by (cases "rx ch"; cases "tl (rx ch)")
     (auto simp: imx_set_register_def ch_write_def ch_read4_def log_event_def Let_def
       split: option.splits)

lemma sreg_set_bauds:
  "filter is_set_baud (trace (snd (imx_set_register ch addr len val ignore))) =
     filter is_set_baud (trace ch)"
  by (cases "rx ch"; cases "tl (rx ch)")
     (auto simp: imx_set_register_def ch_write_def ch_read4_def log_event_def Let_def
       split: option.splits)

lemma replay_writes:
  "\<forall>c\<in>set cs. call_width c = 32 \<Longrightarrow>
     filter is_write (trace (replay cs ch)) =
       filter is_write (trace ch) @ map (\<lambda>c. Write (wire (call_packet c))) cs"
proof (induction cs arbitrary: ch)
  case Nil
  then show ?case by simp
next
  case (Cons c cs)
  obtain a l v i where c: "c = (a, l, v, i)"
    by (cases c) auto
  with Cons.prems have l: "l = 32"
    by (simp add: call_width_def)
  show ?case
    using Cons.prems by (simp add: Cons.IH c l do_call_def sreg_writes call_packet_def)
qed

lemma setup_calls_flags: "\<forall>c\<in>set setup_calls. \<not> call_ignore c \<and> call_width c = 32"
  by (simp add: setup_calls_def call_ignore_def call_width_def)

text \<open>
  Claim C1, as the code has it. \<^verbatim>\<open>imx_set_baud\<close> does not look at the result of
  either register write. Whatever the device answers, it writes the divisor packet and
  the FIFO packet, then sets the local baud rate, once and as its last action on the
  port, and returns success.
\<close>

theorem imx_set_baud_unconditional:
  "fst (imx_set_baud ch baud) = Inr ()
   \<and> last (trace (snd (imx_set_baud ch baud))) = SetBaudRate baud
   \<and> filter is_set_baud (trace (snd (imx_set_baud ch baud))) =
       filter is_set_baud (trace ch) @ [SetBaudRate baud]
   \<and> filter is_write (trace (snd (imx_set_baud ch baud))) =
       filter is_write (trace ch)
         @ [Write (wire (sreg_packet 0x1000A0A4 32 (baud div 100 - 1))),
            Write (wire (sreg_packet 0x1000A0A8 32 9999))]"
  by (simp add: imx_set_baud_def Let_def set_baud_def log_event_def sreg_writes sreg_set_bauds)

theorem imx_set_baud_unconditional_example:
  "fst (imx_set_baud (device [Some 0x56787856, Some 0x128a8a12]) 921600) = Inr ()
   \<and> last (trace (snd (imx_set_baud (device [Some 0x56787856, Some 0x128a8a12]) 921600))) =
       SetBaudRate 921600
   \<and> filter is_write
         (trace (snd (imx_set_baud (device [Some 0x56787856, Some 0x128a8a12]) 921600))) =
       [Write [2, 2, 0x10, 0, 0xA0, 0xA4, 32, 0, 0, 0, 0, 0, 0, 0x23, 0xFF, 0],
        Write [2, 2, 0x10, 0, 0xA0, 0xA8, 32, 0, 0, 0, 0, 0, 0, 0x27, 0x0F, 0]]"
  using imx_set_baud_unconditional [of "device [Some 0x56787856, Some 0x128a8a12]" 921600]
  by (simp add: device_def wire_sreg le32_def)

text \<open>
  The claim as the specification words it fails: against a silent device the divisor
  write times out, and the local baud rate is set all the same.
\<close>

theorem imx_set_baud_after_timeout:
  "fst (imx_set_register (device []) 0x1000A0A4 32 (921600 div 100 - 1) False) = Inl Timeout
   \<and> imx_set_baud (device []) 921600 =
       (Inr (), \<lparr>rx = [],
          trace = [Write [2, 2, 0x10, 0, 0xA0, 0xA4, 32, 0, 0, 0, 0, 0, 0, 0x23, 0xFF, 0],
                   Read4 None,
                   Write [2, 2, 0x10, 0, 0xA0, 0xA8, 32, 0, 0, 0, 0, 0, 0, 0x27, 0x0F, 0],
                   Read4 None,
                   SetBaudRate 921600]\<rparr>)"
  by (simp add: imx_set_baud_def imx_set_register_def device_def ch_write_def ch_read4_def
      log_event_def set_baud_def Let_def wire_sreg le32_def)

lemma sreg_result:
  assumes "len = 8 \<or> len = 16 \<or> len = 32"
  shows "fst (imx_set_register ch addr len val False) =
     (case rx ch of
        Some b # Some c # rs \<Rightarrow>
          if b = 0x56787856 \<and> c = 0x128a8a12 then Inr () else Inl (ProtocolMismatch [b, c])
      | _ \<Rightarrow> Inl Timeout)"
  using assms
  by (auto simp: imx_set_register_def ch_write_def ch_read4_def log_event_def Let_def
      split: list.splits option.splits)

lemma sreg_ok_iff:
  assumes "len = 8 \<or> len = 16 \<or> len = 32"
  shows "(fst (imx_set_register ch addr len val False) = Inr ()) =
     (take 2 (rx ch) = [Some 0x56787856, Some 0x128a8a12])"
  unfolding sreg_result [OF assms]
  by (cases "rx ch"; cases "tl (rx ch)") (auto split: option.splits)

lemma setup_call_result:
  assumes "c \<in> set setup_calls"
  shows "fst (do_call ch c) =
     (case rx ch of
        Some b # Some c' # rs \<Rightarrow>
          if b = 0x56787856 \<and> c' = 0x128a8a12 then Inr () else Inl (ProtocolMismatch [b, c'])
      | _ \<Rightarrow> Inl Timeout)"
    and "(fst (do_call ch c) = Inr ()) = (take 2 (rx ch) = [Some 0x56787856, Some 0x128a8a12])"
proof -
  obtain a l v i where c: "c = (a, l, v, i)"
    by (cases c) auto
  from assms setup_calls_flags have "\<not> call_ignore c \<and> call_width c = 32"
    by blast
  then have f: "i = False" "l = 32"
    by (simp_all add: c call_ignore_def call_width_def)
  show "fst (do_call ch c) =
     (case rx ch of
        Some b # Some c' # rs \<Rightarrow>
          if b = 0x56787856 \<and> c' = 0x128a8a12 then Inr () else Inl (ProtocolMismatch [b, c'])
      | _ \<Rightarrow> Inl Timeout)"
    unfolding c f do_call_def prod.case by (rule sreg_result) simp
  show "(fst (do_call ch c) = Inr ()) = (take 2 (rx ch) = [Some 0x56787856, Some 0x128a8a12])"
    unfolding c f do_call_def prod.case by (rule sreg_ok_iff) simp
qed

text \<open>
  Claim C2, as the code has it. Each of the 23 calls of \<^verbatim>\<open>imx_setup_system\<close> passes
  \<^verbatim>\<open>0\<close> as the ignore flag and 32 as the width. So each call by itself succeeds
  exactly when the device answers \<open>0x56787856\<close> then \<open>0x128a8a12\<close>; two other words
  make it fail with \<open>ProtocolMismatch\<close> carrying them, and a short first or second
  read makes it fail with \<open>Timeout\<close>. The function discards every result: whatever
  the device answers, the 23 packets are written in the order of the source and the
  function returns success.
\<close>

theorem imx_setup_system_replay:
  "(\<forall>c\<in>set setup_calls. \<not> call_ignore c \<and> call_width c = 32)
   \<and> length setup_calls = 23
   \<and> (\<forall>c\<in>set setup_calls.
        fst (do_call ch' c) =
          (case rx ch' of
             Some b # Some c' # rs \<Rightarrow>
               if b = 0x56787856 \<and> c' = 0x128a8a12 then Inr ()
               else Inl (ProtocolMismatch [b, c'])
           | _ \<Rightarrow> Inl Timeout)
        \<and> (fst (do_call ch' c) = Inr ()) =
            (take 2 (rx ch') = [Some 0x56787856, Some 0x128a8a12]))
   \<and> fst (imx_setup_system ch) = Inr ()
   \<and> filter is_write (trace (snd (imx_setup_system ch))) =
       filter is_write (trace ch) @ map (\<lambda>c. Write (wire (call_packet c))) setup_calls"
proof -
  have "length setup_calls = 23"
    by (simp add: setup_calls_def)
  moreover have "fst (imx_setup_system ch) = Inr ()"
    by (simp add: imx_setup_system_def)
  moreover have "filter is_write (trace (snd (imx_setup_system ch))) =
       filter is_write (trace ch) @ map (\<lambda>c. Write (wire (call_packet c))) setup_calls"
    using setup_calls_flags by (simp add: imx_setup_system_def replay_writes)
  ultimately show ?thesis
    using setup_calls_flags setup_call_result [of _ ch'] by blast
qed

theorem imx_setup_system_replay_witness:
  "\<not> call_ignore (0x10000000, 32, 0x00040304, False)
   \<and> call_width (0x10000000, 32, 0x00040304, False) = 32
   \<and> fst (do_call (device [Some 0x56787856, Some 0x128a8a12]) (0x10000000, 32, 0x00040304, False))
       = Inr ()
   \<and> fst (do_call (device [Some 0x56787856, Some 0]) (0x10000000, 32, 0x00040304, False))
       = Inl (ProtocolMismatch [0x56787856, 0])
   \<and> fst (do_call (device [Some 0x56787856]) (0x10000000, 32, 0x00040304, False)) = Inl Timeout
   \<and> fst (do_call (device [None, Some 0x128a8a12]) (0x10000000, 32, 0x00040304, False))
       = Inl Timeout
   \<and> fst (imx_setup_system (device [])) = Inr ()
   \<and> length (filter is_write (trace (snd (imx_setup_system (device []))))) = 23
   \<and> hd (filter is_write (trace (snd (imx_setup_system (device []))))) =
       Write [2, 2, 0x10, 0, 0, 0, 32, 0, 0, 0, 0, 0, 4, 3, 4, 0]"
  using imx_setup_system_replay [of "device [Some 0x56787856, Some 0x128a8a12]" "device []"]
    imx_setup_system_replay [of "device [Some 0x56787856, Some 0]" "device []"]
    imx_setup_system_replay [of "device [Some 0x56787856]" "device []"]
    imx_setup_system_replay [of "device [None, Some 0x128a8a12]" "device []"]
  by (simp add: device_def setup_calls_def call_packet_def wire_sreg le32_def)

text \<open>
  The claim as the specification words it fails at the first call: its ignore flag is
  false, and against a silent device the call returns \<open>Timeout\<close>, not success.
\<close>

theorem setup_call_not_ignored:
  "call_ignore (setup_calls ! 0) = False
   \<and> fst (do_call (device []) (setup_calls ! 0)) = Inl Timeout"
  by (simp add: setup_calls_def call_ignore_def do_call_def imx_set_register_def device_def
      ch_write_def ch_read4_def log_event_def Let_def)

subsection \<open>The download loop\<close>

lemma n_blocks_less: "j < n_blocks S \<longleftrightarrow> 4096 * j < S"
proof -
  have "j < (S + 4095) div 4096 \<longleftrightarrow> Suc j \<le> (S + 4095) div 4096"
    by (simp only: Suc_le_eq)
  also have "\<dots> \<longleftrightarrow> Suc j * 4096 \<le> S + 4095"
    by (rule less_eq_div_iff_mult_less_eq) simp
  also have "\<dots> \<longleftrightarrow> 4096 * j < S"
    by (simp add: algebra_simps) linarith
  finally show ?thesis by (simp only: n_blocks_def)
qed

lemma chunk_unat:
  assumes "unat i = 4096 * j" "4096 * j < unat fsize"
  shows "unat (chunk fsize i) = blk_len (unat fsize) j"
  using assms unfolding chunk_def CHUNK_SIZE_def blk_len_def
  by (auto simp: unat_sub word_less_nat_alt word_le_nat_alt)

lemma step_unat:
  assumes "unat i = 4096 * j" "4096 * j < unat fsize"
  shows "unat (i + chunk fsize i) = 4096 * j + blk_len (unat fsize) j"
proof -
  have "unat i + unat (chunk fsize i) \<le> unat fsize"
    using assms by (simp add: chunk_unat blk_len_def)
  then have "unat i + unat (chunk fsize i) < 2 ^ LENGTH(32)"
    using unsigned_less [of fsize] by (rule le_less_trans)
  then have "unat (i + chunk fsize i) = unat i + unat (chunk fsize i)"
    by (simp only: unat_add_lem)
  then show ?thesis using assms by (simp add: chunk_unat)
qed

lemma download_loop_exit:
  assumes "unat i = unat fsize"
  shows "download_loop ch bin addr fsize i = (Inr (), ch)"
proof -
  have "\<not> i < fsize" using assms by (simp add: word_less_nat_alt)
  then show ?thesis by (subst download_loop.simps) simp
qed

lemma download_loop_step:
  assumes ui: "unat i = 4096 * j" and lt: "4096 * j < unat fsize"
  shows "download_loop ch bin addr fsize i =
     (case rx ch of
        [] \<Rightarrow>
          (Inl Timeout,
           ch\<lparr>trace := trace ch @ [hd (block_events bin addr (unat fsize) j), Read4 None]\<rparr>)
      | None # rs \<Rightarrow>
          (Inl Timeout,
           ch\<lparr>rx := rs,
              trace := trace ch @ [hd (block_events bin addr (unat fsize) j), Read4 None]\<rparr>)
      | Some b # rs \<Rightarrow>
          if b \<noteq> 0x56787856 then
            (Inl (ProtocolMismatch [b]),
             ch\<lparr>rx := rs,
                trace := trace ch @ [hd (block_events bin addr (unat fsize) j), Read4 (Some b)]\<rparr>)
          else
            download_loop (ch\<lparr>rx := rs, trace := trace ch @ block_events bin addr (unat fsize) j\<rparr>)
              bin addr fsize (i + chunk fsize i))"
proof -
  let ?S = "unat fsize"
  have less: "i < fsize" using ui lt by (simp add: word_less_nat_alt)
  have tw: "unat (chunk fsize i) = blk_len ?S j" using ui lt by (rule chunk_unat)
  have st: "unat (i + chunk fsize i) = 4096 * j + blk_len ?S j" using ui lt by (rule step_unat)
  have i_eq: "of_nat (4096 * j) = i"
    using arg_cong [OF ui, of "of_nat :: nat \<Rightarrow> u32"] by simp
  have tw_eq: "of_nat (blk_len ?S j) = chunk fsize i"
    using arg_cong [OF tw, of "of_nat :: nat \<Rightarrow> u32"] by simp
  have st_eq: "of_nat (4096 * j + blk_len ?S j) = i + chunk fsize i"
    using arg_cong [OF st, of "of_nat :: nat \<Rightarrow> u32"] by simp
  have S_eq: "of_nat ?S = fsize" by simp
  show ?thesis
    apply (subst download_loop.simps)
    apply (simp only: less if_True Let_def)
    apply (simp only: ch_write_def ch_read4_def log_event_def)
    apply (simp add: block_events_def tw ui i_eq tw_eq st_eq S_eq
        del: of_nat_add of_nat_mult split: list.splits option.splits)
    done
qed

lemma step_inv:
  assumes "unat i = 4096 * j" "4096 * j < unat fsize"
  shows "unat (i + chunk fsize i) = min (unat fsize) (4096 * Suc j)"
  using step_unat [OF assms] assms(2) by (auto simp: blk_len_def min_def)

lemma download_loop_acked:
  assumes "n_blocks (unat fsize) - j = m" "j \<le> n_blocks (unat fsize)"
    "unat i = min (unat fsize) (4096 * j)"
    "take m (rx ch) = replicate m (Some 0x56787856)"
  shows "download_loop ch bin addr fsize i =
     (Inr (), ch\<lparr>rx := drop m (rx ch),
                   trace := trace ch @ concat (map (block_events bin addr (unat fsize)) [j..<n_blocks (unat fsize)])\<rparr>)"
  using assms
proof (induction m arbitrary: j i ch)
  case 0
  then have j: "j = n_blocks (unat fsize)" by simp
  then have "\<not> 4096 * j < unat fsize" using n_blocks_less [of j "unat fsize"] by simp
  then have "unat i = unat fsize" using 0 by simp
  then show ?case using j by (simp add: download_loop_exit)
next
  case (Suc m)
  let ?S = "unat fsize"
  have jn: "j < n_blocks ?S" using Suc.prems by simp
  then have lt: "4096 * j < ?S" by (simp add: n_blocks_less)
  then have ui: "unat i = 4096 * j" using Suc.prems by simp
  obtain rest where rx: "rx ch = Some 0x56787856 # rest"
    and rest: "take m rest = replicate m (Some 0x56787856)"
    using Suc.prems(4) by (cases "rx ch") auto
  define ch4 where "ch4 = ch\<lparr>rx := rest, trace := trace ch @ block_events bin addr ?S j\<rparr>"
  have IH: "download_loop ch4 bin addr fsize (i + chunk fsize i) =
     (Inr (), ch4\<lparr>rx := drop m (rx ch4),
         trace := trace ch4 @ concat (map (block_events bin addr ?S) [Suc j..<n_blocks ?S])\<rparr>)"
    apply (rule Suc.IH)
    using Suc.prems jn step_inv [OF ui lt] rest by (simp_all add: ch4_def)
  have unf: "download_loop ch bin addr fsize i = download_loop ch4 bin addr fsize (i + chunk fsize i)"
    by (simp add: download_loop_step [OF ui lt] rx ch4_def)
  show ?case
    unfolding unf IH using jn
    by (simp add: ch4_def upt_conv_Cons rx)
qed

lemma download_loop_Inr:
  assumes "download_loop ch bin addr fsize i = (Inr (), ch')"
    "n_blocks (unat fsize) - j = m" "j \<le> n_blocks (unat fsize)"
    "unat i = min (unat fsize) (4096 * j)"
  shows "take m (rx ch) = replicate m (Some 0x56787856)"
  using assms
proof (induction m arbitrary: j i ch)
  case 0
  then show ?case by simp
next
  case (Suc m)
  let ?S = "unat fsize"
  have jn: "j < n_blocks ?S" using Suc.prems by simp
  then have lt: "4096 * j < ?S" by (simp add: n_blocks_less)
  then have ui: "unat i = 4096 * j" using Suc.prems by simp
  from Suc.prems(1) obtain rest where rx: "rx ch = Some 0x56787856 # rest"
    and rec: "download_loop (ch\<lparr>rx := rest, trace := trace ch @ block_events bin addr ?S j\<rparr>)
        bin addr fsize (i + chunk fsize i) = (Inr (), ch')"
    unfolding download_loop_step [OF ui lt]
    by (auto split: list.splits option.splits if_splits)
  have "take m (rx (ch\<lparr>rx := rest, trace := trace ch @ block_events bin addr ?S j\<rparr>))
      = replicate m (Some 0x56787856)"
    apply (rule Suc.IH [OF rec, of "Suc j"])
    using Suc.prems jn step_inv [OF ui lt] by simp_all
  then show ?case by (simp add: rx)
qed

lemma download_loop_any:
  assumes "n_blocks (unat fsize) - j = m" "j \<le> n_blocks (unat fsize)"
    "unat i = min (unat fsize) (4096 * j)"
  shows "download_loop ch bin addr fsize i =
     (if good_acks m (rx ch) = m then
        (Inr (), ch\<lparr>rx := drop m (rx ch),
                   trace := trace ch
                     @ concat (map (block_events bin addr (unat fsize)) [j..<n_blocks (unat fsize)])\<rparr>)
      else
        (Inl (ack_error (nth_read (rx ch) (good_acks m (rx ch)))),
         ch\<lparr>rx := drop (Suc (good_acks m (rx ch))) (rx ch),
            trace := trace ch
              @ concat (map (block_events bin addr (unat fsize)) [j..<j + good_acks m (rx ch)])
              @ [hd (block_events bin addr (unat fsize) (j + good_acks m (rx ch))),
                 Read4 (nth_read (rx ch) (good_acks m (rx ch)))]\<rparr>))"
  using assms
proof (induction m arbitrary: j i ch)
  case 0
  then have j: "j = n_blocks (unat fsize)" by simp
  then have "\<not> 4096 * j < unat fsize" using n_blocks_less [of j "unat fsize"] by simp
  then have "unat i = unat fsize" using 0 by simp
  then show ?case using j by (simp add: download_loop_exit good_acks_def)
next
  case (Suc m)
  let ?S = "unat fsize"
  have jn: "j < n_blocks ?S" using Suc.prems by simp
  then have lt: "4096 * j < ?S" by (simp add: n_blocks_less)
  then have ui: "unat i = 4096 * j" using Suc.prems by simp
  note step = download_loop_step [OF ui lt, of ch bin addr]
  show ?case
  proof (cases "rx ch")
    case Nil
    then show ?thesis
      unfolding step by (cases ch) (simp add: good_acks_def nth_read_def ack_error_def)
  next
    case (Cons r rs)
    show ?thesis
    proof (cases "r = Some 0x56787856")
      case False
      then show ?thesis
        unfolding step using Cons
        by (cases r) (simp_all add: good_acks_def nth_read_def ack_error_def)
    next
      case True
      define ch4 where "ch4 = ch\<lparr>rx := rs, trace := trace ch @ block_events bin addr ?S j\<rparr>"
      have unf: "download_loop ch bin addr fsize i =
          download_loop ch4 bin addr fsize (i + chunk fsize i)"
        unfolding step using Cons True by (simp add: ch4_def)
      have g: "good_acks (Suc m) (rx ch) = Suc (good_acks m rs)"
        using Cons True by (simp add: good_acks_def)
      have nr: "nth_read (rx ch) (Suc k) = nth_read rs k" for k
        using Cons by (simp add: nth_read_def)
      have up: "[j..<j + Suc k] = j # [Suc j..<Suc j + k]" for k
        by (simp add: upt_conv_Cons)
      have upn: "[j..<n_blocks ?S] = j # [Suc j..<n_blocks ?S]"
        using jn by (simp add: upt_conv_Cons)
      have IH: "download_loop ch4 bin addr fsize (i + chunk fsize i) =
         (if good_acks m (rx ch4) = m then
            (Inr (), ch4\<lparr>rx := drop m (rx ch4),
               trace := trace ch4
                 @ concat (map (block_events bin addr ?S) [Suc j..<n_blocks ?S])\<rparr>)
          else
            (Inl (ack_error (nth_read (rx ch4) (good_acks m (rx ch4)))),
             ch4\<lparr>rx := drop (Suc (good_acks m (rx ch4))) (rx ch4),
                trace := trace ch4
                  @ concat (map (block_events bin addr ?S) [Suc j..<Suc j + good_acks m (rx ch4)])
                  @ [hd (block_events bin addr ?S (Suc j + good_acks m (rx ch4))),
                     Read4 (nth_read (rx ch4) (good_acks m (rx ch4)))]\<rparr>))"
        apply (rule Suc.IH)
        using Suc.prems jn step_inv [OF ui lt] by simp_all
      have rx4: "rx ch4 = rs" and tr4: "trace ch4 = trace ch @ block_events bin addr ?S j"
        by (simp_all add: ch4_def)
      show ?thesis
        unfolding unf IH g nr rx4 tr4 up upn
        using Cons by (simp add: ch4_def)
    qed
  qed
qed

lemma last_block:
  assumes "0 < S"
  shows "4096 * (n_blocks S - 1) < S" and "S \<le> 4096 * n_blocks S"
    and "4096 * (n_blocks S - 1) + blk_len S (n_blocks S - 1) = S"
    and "blk_len S (n_blocks S - 1) = (if S mod 4096 = 0 then 4096 else S mod 4096)"
proof -
  have pos: "0 < n_blocks S"
    using assms n_blocks_less [of 0 S] by simp
  then have "n_blocks S - 1 < n_blocks S" by simp
  then show lo: "4096 * (n_blocks S - 1) < S"
    using n_blocks_less [of "n_blocks S - 1" S] by simp
  have "\<not> 4096 * n_blocks S < S"
    using n_blocks_less [of "n_blocks S" S] by simp
  then show hi: "S \<le> 4096 * n_blocks S" by simp
  have hi': "S - 4096 * (n_blocks S - 1) \<le> 4096"
    using hi pos by (cases "n_blocks S") simp_all
  then show sum: "4096 * (n_blocks S - 1) + blk_len S (n_blocks S - 1) = S"
    using lo by (simp add: blk_len_def)
  define q where "q = n_blocks S - 1"
  define r where "r = S - 4096 * q"
  have S: "S = 4096 * q + r" and r: "0 < r" "r \<le> 4096"
    using lo hi' by (simp_all add: q_def r_def)
  have "blk_len S q = r" using r by (simp add: blk_len_def r_def)
  moreover have "(if S mod 4096 = 0 then 4096 else S mod 4096) = r"
  proof (cases "r = 4096")
    case True
    then show ?thesis by (simp add: S)
  next
    case False
    then have "r < 4096" using r by simp
    then show ?thesis using r by (simp add: S)
  qed
  ultimately show "blk_len S (n_blocks S - 1) = (if S mod 4096 = 0 then 4096 else S mod 4096)"
    by (simp add: q_def)
qed

lemma imx_download_acked:
  assumes "take (n_blocks (unat (of_nat (length bin) :: u32))) (rx ch)
      = replicate (n_blocks (unat (of_nat (length bin) :: u32))) (Some 0x56787856)"
  shows "imx_download ch (Some bin) addr =
     (Inr (), ch\<lparr>rx := drop (n_blocks (unat (of_nat (length bin) :: u32))) (rx ch),
        trace := trace ch @ concat (map (block_events bin addr (unat (of_nat (length bin) :: u32)))
           [0..<n_blocks (unat (of_nat (length bin) :: u32))])\<rparr>)"
  unfolding imx_download_def option.case
  by (rule download_loop_acked) (use assms in simp_all)

lemma imx_download_Inr:
  assumes "imx_download ch file addr = (Inr (), ch')"
  shows "\<exists>bin. file = Some bin \<and>
     ch' = ch\<lparr>rx := drop (n_blocks (unat (of_nat (length bin) :: u32))) (rx ch),
        trace := trace ch @ concat (map (block_events bin addr (unat (of_nat (length bin) :: u32)))
           [0..<n_blocks (unat (of_nat (length bin) :: u32))])\<rparr>"
proof (cases "file")
  case None
  with assms show ?thesis by (simp add: imx_download_def)
next
  case (Some bin)
  with assms have dl: "download_loop ch bin addr (of_nat (length bin)) 0 = (Inr (), ch')"
    by (simp add: imx_download_def)
  have "take (n_blocks (unat (of_nat (length bin) :: u32))) (rx ch)
      = replicate (n_blocks (unat (of_nat (length bin) :: u32))) (Some 0x56787856)"
    by (rule download_loop_Inr [OF dl, of 0]) simp_all
  from imx_download_acked [OF this, of addr] assms Some show ?thesis by simp
qed

lemma file_size_mod: "file_size bin = length bin mod 2 ^ 32"
  by (simp add: file_size_def unat_of_nat)

lemma file_size_le: "file_size bin \<le> length bin"
  by (simp add: file_size_mod)

lemma good_acks_le: "good_acks n rs \<le> n"
proof -
  have "length (takeWhile (\<lambda>r. r = Some 0x56787856) (take n rs)) \<le> length (take n rs)"
    by (rule length_takeWhile_le)
  then show ?thesis by (simp add: good_acks_def)
qed

lemma good_acks_before:
  assumes "k < good_acks n rs"
  shows "nth_read rs k = Some 0x56787856"
proof -
  let ?P = "\<lambda>r. r = Some (0x56787856 :: u32)"
  let ?t = "takeWhile ?P (take n rs)"
  have k: "k < length ?t" using assms by (simp add: good_acks_def)
  then have "?t ! k \<in> set ?t" by (rule nth_mem)
  then have "?P (?t ! k)" by (rule set_takeWhileD [THEN conjunct2])
  moreover have "?t ! k = take n rs ! k" using k by (rule takeWhile_nth)
  moreover have "k < length (take n rs)"
    using k length_takeWhile_le [of ?P "take n rs"] by (rule less_le_trans)
  ultimately show ?thesis by (simp add: nth_read_def)
qed

lemma good_acks_stop:
  assumes "good_acks n rs < n"
  shows "nth_read rs (good_acks n rs) \<noteq> Some 0x56787856"
proof (cases "good_acks n rs < length (take n rs)")
  case True
  then have "\<not> (take n rs ! good_acks n rs = Some 0x56787856)"
    unfolding good_acks_def by (rule nth_length_takeWhile)
  then show ?thesis using True by (simp add: nth_read_def)
next
  case False
  then have "length rs \<le> good_acks n rs" using assms by simp
  then show ?thesis by (simp add: nth_read_def)
qed

text \<open>
  Claim C4, as the code has it. The size of the source is kept in an \<^verbatim>\<open>unsigned int\<close>:
  \<open>S\<close> is the length of the source modulo \<open>2 ^ 32\<close>, which is the length for every
  source below 4 GiB. The transfer is planned as \<open>(S + 4095) div 4096\<close> blocks, in
  order. Block \<open>k\<close> is: the header packet with address \<open>addr + 4096 * k\<close> and length
  \<open>min 4096 (S - 4096 * k)\<close>, both most significant byte first; the read of one word;
  and, only when that word is \<open>0x56787856\<close>, the payload (that many bytes of the source
  from offset \<open>4096 * k\<close>) and the progress report. Nothing is read after the payload.
  With every header acknowledged all blocks are sent and the result is success. At the
  first read that is short or gives another word the transfer stops with \<open>Timeout\<close> or
  \<open>ProtocolMismatch\<close>: the header of that block is the last thing written. The offset
  grows with every block; for \<open>S > 0\<close> the last block ends at \<open>S\<close> and is
  \<open>S mod 4096\<close> bytes long, or 4096 when that is 0.
\<close>

theorem imx_download_transfer:
  "imx_download ch (Some bin) addr =
     (if good_acks (n_blocks (file_size bin)) (rx ch) = n_blocks (file_size bin) then
        (Inr (),
         ch\<lparr>rx := drop (n_blocks (file_size bin)) (rx ch),
            trace := trace ch
              @ concat (map (block_events bin addr (file_size bin))
                          [0..<n_blocks (file_size bin)])\<rparr>)
      else
        (Inl (ack_error (nth_read (rx ch) (good_acks (n_blocks (file_size bin)) (rx ch)))),
         ch\<lparr>rx := drop (Suc (good_acks (n_blocks (file_size bin)) (rx ch))) (rx ch),
            trace := trace ch
              @ concat (map (block_events bin addr (file_size bin))
                          [0..<good_acks (n_blocks (file_size bin)) (rx ch)])
              @ [hd (block_events bin addr (file_size bin)
                       (good_acks (n_blocks (file_size bin)) (rx ch))),
                 Read4 (nth_read (rx ch) (good_acks (n_blocks (file_size bin)) (rx ch)))]\<rparr>))
   \<and> file_size bin = length bin mod 2 ^ 32
   \<and> n_blocks (file_size bin) = (file_size bin + 4095) div 4096
   \<and> good_acks (n_blocks (file_size bin)) (rx ch) \<le> n_blocks (file_size bin)
   \<and> (\<forall>k<good_acks (n_blocks (file_size bin)) (rx ch). nth_read (rx ch) k = Some 0x56787856)
   \<and> (good_acks (n_blocks (file_size bin)) (rx ch) < n_blocks (file_size bin) \<longrightarrow>
        nth_read (rx ch) (good_acks (n_blocks (file_size bin)) (rx ch)) \<noteq> Some 0x56787856)
   \<and> (\<forall>k<n_blocks (file_size bin).
          block_events bin addr (file_size bin) k =
            [Write ([4, 4] @ rev (le32 (addr + of_nat (4096 * k))) @ [0]
                      @ rev (le32 (of_nat (min 4096 (file_size bin - 4096 * k))))
                      @ [0, 0, 0, 0, 0]),
             Read4 (Some 0x56787856),
             Write (take (min 4096 (file_size bin - 4096 * k)) (drop (4096 * k) bin)),
             Progress (of_nat (4096 * k + min 4096 (file_size bin - 4096 * k)))
               (of_nat (file_size bin))]
          \<and> length (take (min 4096 (file_size bin - 4096 * k)) (drop (4096 * k) bin)) =
              min 4096 (file_size bin - 4096 * k)
          \<and> 0 < min 4096 (file_size bin - 4096 * k)
          \<and> 4096 * k < 4096 * k + min 4096 (file_size bin - 4096 * k)
          \<and> 4096 * k + min 4096 (file_size bin - 4096 * k) \<le> file_size bin)
   \<and> (0 < file_size bin \<longrightarrow>
          4096 * (n_blocks (file_size bin) - 1) < file_size bin
          \<and> file_size bin \<le> 4096 * n_blocks (file_size bin)
          \<and> 4096 * (n_blocks (file_size bin) - 1)
              + blk_len (file_size bin) (n_blocks (file_size bin) - 1) = file_size bin
          \<and> blk_len (file_size bin) (n_blocks (file_size bin) - 1) =
              (if file_size bin mod 4096 = 0 then 4096 else file_size bin mod 4096))"
proof -
  let ?S = "file_size bin"
  let ?n = "n_blocks ?S"
  let ?g = "good_acks ?n (rx ch)"
  have A: "imx_download ch (Some bin) addr =
     (if ?g = ?n then
        (Inr (),
         ch\<lparr>rx := drop ?n (rx ch),
            trace := trace ch @ concat (map (block_events bin addr ?S) [0..<?n])\<rparr>)
      else
        (Inl (ack_error (nth_read (rx ch) ?g)),
         ch\<lparr>rx := drop (Suc ?g) (rx ch),
            trace := trace ch @ concat (map (block_events bin addr ?S) [0..<?g])
              @ [hd (block_events bin addr ?S ?g), Read4 (nth_read (rx ch) ?g)]\<rparr>))"
    unfolding imx_download_def option.case file_size_def
    using download_loop_any [of "of_nat (length bin)" 0 _ 0 ch bin addr] by simp
  have B: "?n = (?S + 4095) div 4096"
    by (simp add: n_blocks_def)
  have C: "block_events bin addr ?S k =
            [Write ([4, 4] @ rev (le32 (addr + of_nat (4096 * k))) @ [0]
                      @ rev (le32 (of_nat (min 4096 (?S - 4096 * k)))) @ [0, 0, 0, 0, 0]),
             Read4 (Some 0x56787856),
             Write (take (min 4096 (?S - 4096 * k)) (drop (4096 * k) bin)),
             Progress (of_nat (4096 * k + min 4096 (?S - 4096 * k))) (of_nat ?S)]
          \<and> length (take (min 4096 (?S - 4096 * k)) (drop (4096 * k) bin)) =
              min 4096 (?S - 4096 * k)
          \<and> 0 < min 4096 (?S - 4096 * k)
          \<and> 4096 * k < 4096 * k + min 4096 (?S - 4096 * k)
          \<and> 4096 * k + min 4096 (?S - 4096 * k) \<le> ?S"
    if "k < ?n" for k
  proof -
    have "4096 * k < ?S"
      using that n_blocks_less [of k ?S] by simp
    then show ?thesis
      using file_size_le [of bin]
      by (simp add: block_events_def blk_len_def wire_dwnl del: of_nat_add of_nat_mult)
  qed
  have D: "4096 * (?n - 1) < ?S \<and> ?S \<le> 4096 * ?n
          \<and> 4096 * (?n - 1) + blk_len ?S (?n - 1) = ?S
          \<and> blk_len ?S (?n - 1) = (if ?S mod 4096 = 0 then 4096 else ?S mod 4096)"
    if "0 < ?S"
    using last_block [OF that] by (intro conjI)
  show ?thesis
    using A B C D file_size_mod [of bin] good_acks_le [of ?n "rx ch"]
      good_acks_before [of _ ?n "rx ch"] good_acks_stop [of ?n "rx ch"]
    by blast
qed

theorem imx_download_transfer_witness:
  "imx_download (device [Some 0x56787856, Some 0x56787856]) (Some (replicate 4097 0x5A))
       0xC0000000 =
     (Inr (),
      \<lparr>rx = [],
       trace = [Write [4, 4, 0xC0, 0, 0, 0, 0, 0, 0, 0x10, 0, 0, 0, 0, 0, 0],
                Read4 (Some 0x56787856),
                Write (replicate 4096 0x5A),
                Progress 4096 4097,
                Write [4, 4, 0xC0, 0, 0x10, 0, 0, 0, 0, 0, 1, 0, 0, 0, 0, 0],
                Read4 (Some 0x56787856),
                Write [0x5A],
                Progress 4097 4097]\<rparr>)
   \<and> imx_download (device [Some 0x56787856, None, Some 0x56787856]) (Some (replicate 4097 0x5A))
       0xC0000000 =
     (Inl Timeout,
      \<lparr>rx = [Some 0x56787856],
       trace = [Write [4, 4, 0xC0, 0, 0, 0, 0, 0, 0, 0x10, 0, 0, 0, 0, 0, 0],
                Read4 (Some 0x56787856),
                Write (replicate 4096 0x5A),
                Progress 4096 4097,
                Write [4, 4, 0xC0, 0, 0x10, 0, 0, 0, 0, 0, 1, 0, 0, 0, 0, 0],
                Read4 None]\<rparr>)
   \<and> imx_download (device [Some 0xf0f0f0f0, Some 0x56787856]) (Some (replicate 4097 0x5A))
       0xC0000000 =
     (Inl (ProtocolMismatch [0xf0f0f0f0]),
      \<lparr>rx = [Some 0x56787856],
       trace = [Write [4, 4, 0xC0, 0, 0, 0, 0, 0, 0, 0x10, 0, 0, 0, 0, 0, 0],
                Read4 (Some 0xf0f0f0f0)]\<rparr>)
   \<and> file_size (replicate 4097 0x5A) = 4097 \<and> n_blocks 4097 = 2 \<and> blk_len 4097 1 = 1"
proof -
  have fs: "file_size (replicate 4097 0x5A) = 4097"
    by (simp add: file_size_def)
  have n: "n_blocks 4097 = 2"
    by (simp add: n_blocks_def)
  have u: "[0..<2] = [0, 1]" "[0..<1] = [0]"
    by (simp_all add: upt_conv_Cons numeral_2_eq_2)
  have g: "good_acks 2 [Some 0x56787856, Some 0x56787856] = 2"
    "good_acks 2 [Some 0x56787856, None, Some 0x56787856] = 1"
    "good_acks 2 [Some 0xf0f0f0f0, Some 0x56787856] = 0"
    by (simp_all add: good_acks_def)
  show ?thesis
    using imx_download_transfer [of "device [Some 0x56787856, Some 0x56787856]"
        "replicate 4097 0x5A" "0xC0000000"]
      imx_download_transfer [of "device [Some 0x56787856, None, Some 0x56787856]"
        "replicate 4097 0x5A" "0xC0000000"]
      imx_download_transfer [of "device [Some 0xf0f0f0f0, Some 0x56787856]"
        "replicate 4097 0x5A" "0xC0000000"]
    by (simp add: fs n u g device_def block_events_def blk_len_def wire_dwnl le32_def
        nth_read_def ack_error_def)
qed

text \<open>
  The claim as the specification words it, for every source, fails at a source of
  \<open>2 ^ 32 + 5\<close> bytes: \<^verbatim>\<open>size\<close> is 5, so against a device that would acknowledge each
  of the 1048577 headers the whole transfer is one block of 5 bytes.
\<close>

theorem download_size_cut:
  "length (replicate 4294967301 (0x5A :: byte)) = 4294967301
   \<and> ((4294967301 :: nat) + 4095) div 4096 = 1048577
   \<and> imx_download \<lparr>rx = Some 0x56787856 # replicate 1048576 (Some 0x56787856), trace = []\<rparr>
        (Some (replicate 4294967301 0x5A)) 0xC0000000 =
      (Inr (),
       \<lparr>rx = replicate 1048576 (Some 0x56787856),
        trace = [Write [4, 4, 0xC0, 0, 0, 0, 0, 0, 0, 0, 5, 0, 0, 0, 0, 0],
                 Read4 (Some 0x56787856),
                 Write (replicate 5 0x5A),
                 Progress 5 5]\<rparr>)"
proof -
  have sz: "(of_nat (length (replicate 4294967301 (0x5A :: byte))) :: u32) = 5"
    by simp
  have c: "chunk 5 0 = 5"
    by (simp add: chunk_def CHUNK_SIZE_def)
  have dl: "download_loop \<lparr>rx = Some 0x56787856 # replicate 1048576 (Some 0x56787856), trace = []\<rparr>
        (replicate 4294967301 0x5A) 0xC0000000 5 0 =
      (Inr (),
       \<lparr>rx = replicate 1048576 (Some 0x56787856),
        trace = [Write [4, 4, 0xC0, 0, 0, 0, 0, 0, 0, 0, 5, 0, 0, 0, 0, 0],
                 Read4 (Some 0x56787856),
                 Write (replicate 5 0x5A),
                 Progress 5 5]\<rparr>)"
    apply (subst download_loop_step [where j = 0])
      apply simp
     apply simp
    apply (simp add: c block_events_def blk_len_def wire_dwnl le32_def download_loop_exit)
    done
  show ?thesis
    unfolding imx_download_def option.case sz dl by simp
qed

subsection \<open>The command loop\<close>

lemma dispatch_run: "hd args = ''run'' \<Longrightarrow> dispatch strtoul fs st args = do_run strtoul st args"
  by (simp add: dispatch_def)

lemma dispatch_download:
  "hd args = ''download'' \<Longrightarrow> dispatch strtoul fs st args = do_download strtoul fs st args"
  by (simp add: dispatch_def)

lemma ensure_synced_entry: "entry (snd (ensure_synced st)) = entry st"
  by (simp add: ensure_synced_def split: prod.splits sum.splits)

lemma imx_run_first:
  "take (Suc (length (trace ch))) (trace (snd (imx_run ch addr))) =
     trace ch @ [Write (wire (run_packet addr))]"
  by (simp add: imx_run_def ch_write_def ch_read4_def log_event_def Let_def
      split: list.splits option.splits)

lemma run_not_sync: "wire (run_packet addr) \<noteq> wire sync_packet"
  by (simp add: wire_run wire_sync)

text \<open>
  Claim C3, as the code has it. The block that would synchronise before \<^verbatim>\<open>run\<close> is
  commented out. When \<^verbatim>\<open>run\<close> is dispatched in an unsynced session, no sync exchange
  is made: either no address is resolved and nothing is sent, or the first thing done on
  the port is the write of the run packet, which is not a sync packet; the session is
  still unsynced afterwards.
\<close>

theorem run_without_sync:
  "args \<noteq> [] \<and> hd args = ''run'' \<and> \<not> synced st \<longrightarrow>
     dispatch strtoul fs st args = do_run strtoul st args
     \<and> \<not> synced (snd (do_run strtoul st args))
     \<and> (fst (optional_arg strtoul args (entry st)) = 0 \<longrightarrow>
          do_run strtoul st args = (Break NoEntryAddress, st))
     \<and> (fst (optional_arg strtoul args (entry st)) \<noteq> 0 \<longrightarrow>
          port (snd (do_run strtoul st args)) =
            snd (imx_run (port st) (fst (optional_arg strtoul args (entry st))))
          \<and> take (Suc (length (trace (port st)))) (trace (port (snd (do_run strtoul st args)))) =
              trace (port st)
                @ [Write (wire (run_packet (fst (optional_arg strtoul args (entry st)))))]
          \<and> wire (run_packet (fst (optional_arg strtoul args (entry st)))) \<noteq> wire sync_packet)"
proof -
  obtain addr n where oa: "optional_arg strtoul args (entry st) = (addr, n)"
    by (cases "optional_arg strtoul args (entry st)") auto
  obtain r ch where ir: "imx_run (port st) addr = (r, ch)"
    by (cases "imx_run (port st) addr") auto
  have a: "synced (snd (do_run strtoul st args)) = synced st"
    by (cases r) (simp_all add: do_run_def oa ir)
  have b: "do_run strtoul st args = (Break NoEntryAddress, st)"
    if "fst (optional_arg strtoul args (entry st)) = 0"
    using that by (simp add: do_run_def oa)
  have c: "port (snd (do_run strtoul st args)) =
      snd (imx_run (port st) (fst (optional_arg strtoul args (entry st))))"
    if "fst (optional_arg strtoul args (entry st)) \<noteq> 0"
    using that by (cases r) (simp_all add: do_run_def oa ir)
  show ?thesis
    using a b c by (simp add: dispatch_run imx_run_first run_not_sync)
qed

theorem run_without_sync_witness:
  "[''run'', ''0xc0000000''] \<noteq> [] \<and> hd [''run'', ''0xc0000000''] = ''run''
   \<and> \<not> synced (initial_session (device [Some 0x56787856, Some 0x88888888]))
   \<and> \<not> synced (snd (do_run strtoul_ex
            (initial_session (device [Some 0x56787856, Some 0x88888888]))
            [''run'', ''0xc0000000'']))
   \<and> take 1 (trace (port (snd (do_run strtoul_ex
            (initial_session (device [Some 0x56787856, Some 0x88888888]))
            [''run'', ''0xc0000000''])))) =
       [Write [4, 4, 0xC0, 0, 0, 0, 0, 0, 0, 0, 0, 0, 0, 0, 0, 0xaa]]"
  using run_without_sync [of "[''run'', ''0xc0000000'']"
      "initial_session (device [Some 0x56787856, Some 0x88888888])" strtoul_ex fs_ex]
  by (simp add: initial_session_def device_def optional_arg_def strtoul_ex_def wire_run
      le32_def do_run_def imx_run_def ch_write_def ch_read4_def log_event_def Let_def)

text \<open>
  The claim as the specification words it fails: \<^verbatim>\<open>run 0xc0000000\<close> as the first
  command of an unsynced session. The run exchange is all that happens on the port, and
  the session ends unsynced.
\<close>

theorem run_unsynced_example:
  "main_loop strtoul_ex fs_ex (initial_session (device [Some 0x56787856, Some 0x88888888]))
       [''run'', ''0xc0000000''] =
     (Completed,
      \<lparr>port = \<lparr>rx = [],
                trace = [Write [4, 4, 0xC0, 0, 0, 0, 0, 0, 0, 0, 0, 0, 0, 0, 0, 0xaa],
                         Read4 (Some 0x56787856),
                         Write [5, 5, 0, 0, 0, 0, 0, 0, 0, 0, 0, 0, 0, 0, 0, 0],
                         Read4 (Some 0x88888888)]\<rparr>,
       synced = False, entry = 0\<rparr>)"
  apply (subst main_loop.simps)
  apply (simp add: dispatch_def do_run_def optional_arg_def strtoul_ex_def initial_session_def
      device_def imx_run_def ch_write_def ch_read4_def log_event_def Let_def wire_run wire_sync
      le32_def)
  apply (subst main_loop.simps)
  apply simp
  done

lemma do_run_sentinel:
  assumes "length args < 2 \<or> strtoul (args ! 1) = 0"
  shows "do_run strtoul st args =
     (if entry st = 0 then (Break NoEntryAddress, st)
      else (case fst (imx_run (port st) (entry st)) of Inl e \<Rightarrow> Break e | Inr u \<Rightarrow> Next 1,
            st\<lparr>port := snd (imx_run (port st) (entry st))\<rparr>))"
proof -
  obtain r ch where ir: "imx_run (port st) (entry st) = (r, ch)"
    by (cases "imx_run (port st) (entry st)") auto
  have oa: "optional_arg strtoul args (entry st) = (entry st, 1)"
    using assms by (auto simp: optional_arg_def Let_def)
  show ?thesis
    by (cases r) (simp_all add: do_run_def oa ir)
qed

lemma do_run_explicit:
  assumes "2 \<le> length args" "strtoul (args ! 1) = a" "a \<noteq> 0"
  shows "do_run strtoul st args =
     (case fst (imx_run (port st) a) of Inl e \<Rightarrow> Break e | Inr u \<Rightarrow> Next 2,
      st\<lparr>port := snd (imx_run (port st) a)\<rparr>)"
proof -
  obtain r ch where ir: "imx_run (port st) a = (r, ch)"
    by (cases "imx_run (port st) a") auto
  have oa: "optional_arg strtoul args (entry st) = (a, 2)"
    using assms by (auto simp: optional_arg_def Let_def)
  show ?thesis
    using assms(3) by (cases r) (simp_all add: do_run_def oa ir)
qed

lemma do_run_entry: "entry (snd (do_run strtoul st args)) = entry st"
proof -
  obtain addr n where oa: "optional_arg strtoul args (entry st) = (addr, n)"
    by (cases "optional_arg strtoul args (entry st)") auto
  obtain r ch where ir: "imx_run (port st) addr = (r, ch)"
    by (cases "imx_run (port st) addr") auto
  show ?thesis
    by (cases r) (simp_all add: do_run_def oa ir)
qed

lemma do_set_entry: "entry (snd (do_set strtoul st args)) = entry st"
proof -
  obtain r st1 where es: "ensure_synced st = (r, st1)"
    by (cases "ensure_synced st") auto
  then have e1: "entry st1 = entry st"
    using ensure_synced_entry [of st] by simp
  obtain r2 ch where sr: "imx_set_register (port st1) (strtoul (args ! 1)) (strtoul (args ! 2))
      (strtoul (args ! 3)) False = (r2, ch)"
    by (cases "imx_set_register (port st1) (strtoul (args ! 1)) (strtoul (args ! 2))
      (strtoul (args ! 3)) False") auto
  show ?thesis
    using e1 by (cases r; cases r2) (simp_all add: do_set_def es sr del: One_nat_def)
qed

lemma do_sync_entry: "entry (snd (do_sync st)) = entry st"
proof -
  obtain r ch where ir: "imx_sync (port st) = (r, ch)"
    by (cases "imx_sync (port st)") auto
  show ?thesis
    by (cases r) (simp_all add: do_sync_def ir)
qed

lemma do_setup_entry: "entry (snd (do_setup st)) = entry st"
proof -
  obtain r st1 where es: "ensure_synced st = (r, st1)"
    by (cases "ensure_synced st") auto
  then have e1: "entry st1 = entry st"
    using ensure_synced_entry [of st] by simp
  show ?thesis
    using e1 by (cases r) (simp_all add: do_setup_def es imx_setup_system_def)
qed

lemma do_baud_entry: "entry (snd (do_baud strtoul st args)) = entry st"
proof -
  obtain r st1 where es: "ensure_synced st = (r, st1)"
    by (cases "ensure_synced st") auto
  then have e1: "entry st1 = entry st"
    using ensure_synced_entry [of st] by simp
  obtain baud n where oa: "optional_arg strtoul args DEFAULT_HIGHSPEED = (baud, n)"
    by (cases "optional_arg strtoul args DEFAULT_HIGHSPEED") auto
  show ?thesis
    using e1 by (cases r) (simp_all add: do_baud_def es oa imx_set_baud_def Let_def)
qed

lemma do_terminal_entry: "entry (snd (do_terminal strtoul st args)) = entry st"
  by (cases "optional_arg strtoul args DEFAULT_TERMBAUD") (simp add: do_terminal_def)

lemma dispatch_entry:
  assumes "hd args \<noteq> ''download''"
  shows "entry (snd (dispatch strtoul fs st args)) = entry st"
  using assms
  by (simp add: dispatch_def Let_def do_set_entry do_sync_entry do_setup_entry do_baud_entry
      do_run_entry do_terminal_entry)

lemma do_download_cases:
  "do_download strtoul fs st args =
     (if length args < 3 then (Break NotEnoughParameters, st)
      else (case fst (ensure_synced st) of
              Inl e \<Rightarrow> (Break e, snd (ensure_synced st))
            | Inr u \<Rightarrow>
                (case fst (imx_download (port (snd (ensure_synced st))) (fs (args ! 1))
                             (strtoul (args ! 2))) of
                   Inl e \<Rightarrow>
                     (Break e,
                      (snd (ensure_synced st))
                        \<lparr>port := snd (imx_download (port (snd (ensure_synced st)))
                                       (fs (args ! 1)) (strtoul (args ! 2)))\<rparr>)
                 | Inr u \<Rightarrow>
                     (Next 3,
                      (snd (ensure_synced st))
                        \<lparr>port := snd (imx_download (port (snd (ensure_synced st)))
                                       (fs (args ! 1)) (strtoul (args ! 2))),
                         entry := strtoul (args ! 2)\<rparr>))))"
proof -
  obtain r st1 where es: "ensure_synced st = (r, st1)"
    by (cases "ensure_synced st") auto
  obtain r2 ch where dl: "imx_download (port st1) (fs (args ! 1)) (strtoul (args ! 2)) = (r2, ch)"
    by (cases "imx_download (port st1) (fs (args ! 1)) (strtoul (args ! 2))") auto
  show ?thesis
    by (cases r; cases r2) (simp_all add: do_download_def es dl del: One_nat_def)
qed

lemma main_loop_Nil: "main_loop strtoul fs st [] = (Completed, st)"
  by (simp add: main_loop.simps)

lemma main_loop_run_last:
  assumes "strtoul a = entry st"
  shows "main_loop strtoul fs st [''run''] = main_loop strtoul fs st [''run'', a]"
proof (cases "entry st = 0")
  case True
  have 1: "do_run strtoul st [''run''] = (Break NoEntryAddress, st)"
    using True by (simp add: do_run_sentinel)
  have 2: "do_run strtoul st [''run'', a] = (Break NoEntryAddress, st)"
    using True assms by (simp add: do_run_sentinel)
  show ?thesis
    by (simp add: main_loop.simps [of _ _ st "[''run'']"]
        main_loop.simps [of _ _ st "[''run'', a]"] dispatch_def 1 2)
next
  case False
  obtain r ch where ir: "imx_run (port st) (entry st) = (r, ch)"
    by (cases "imx_run (port st) (entry st)") auto
  have 1: "do_run strtoul st [''run''] =
      (case r of Inl e \<Rightarrow> Break e | Inr u \<Rightarrow> Next 1, st\<lparr>port := ch\<rparr>)"
    using False by (simp add: do_run_sentinel ir)
  have 2: "do_run strtoul st [''run'', a] =
      (case r of Inl e \<Rightarrow> Break e | Inr u \<Rightarrow> Next 2, st\<lparr>port := ch\<rparr>)"
    using False assms by (simp add: do_run_explicit [where a = "entry st"] ir)
  show ?thesis
    by (cases r)
      (simp_all add: main_loop.simps [of _ _ st "[''run'']"]
        main_loop.simps [of _ _ st "[''run'', a]"] dispatch_def 1 2 main_loop_Nil)
qed

text \<open>
  Claim C8. \<open>entry\<close> starts as 0 and no command but \<^verbatim>\<open>download\<close> changes it; a
  successful \<^verbatim>\<open>download\<close> sets it to the download address. \<^verbatim>\<open>run\<close> without an
  address, or with a word that \<^verbatim>\<open>strtoul\<close> reads as 0, uses \<open>entry\<close>: when that is 0
  the command stops with \<open>NoEntryAddress\<close> and the session, port included, is as before;
  otherwise the exchange, its result and the session after it are those of \<^verbatim>\<open>run\<close>
  with the address written out. The two differ only in the number of words taken: a
  word read as 0 is left to be the next command. \<^verbatim>\<open>run\<close> as the last word and
  \<^verbatim>\<open>run\<close> followed by the entry address end the loop alike.
\<close>

theorem run_entry_address:
  "entry (initial_session ch) = 0
   \<and> (hd args \<noteq> ''download'' \<longrightarrow> entry (snd (dispatch strtoul fs st args)) = entry st)
   \<and> ((length args < 2 \<or> strtoul (args ! 1) = 0) \<and> entry st = 0 \<longrightarrow>
        do_run strtoul st args = (Break NoEntryAddress, st))
   \<and> (fst (do_download strtoul fs st0 dargs) = Next 3 \<longrightarrow>
        entry (snd (do_download strtoul fs st0 dargs)) = strtoul (dargs ! 2))
   \<and> ((length args < 2 \<or> strtoul (args ! 1) = 0)
        \<and> 2 \<le> length args' \<and> strtoul (args' ! 1) = entry st \<longrightarrow>
        snd (do_run strtoul st args) = snd (do_run strtoul st args')
        \<and> (\<forall>e. (fst (do_run strtoul st args) = Break e) =
                 (fst (do_run strtoul st args') = Break e))
        \<and> (fst (do_run strtoul st args) = Next 1) = (fst (do_run strtoul st args') = Next 2)
        \<and> fst (do_run strtoul st args) \<noteq> Relay \<and> fst (do_run strtoul st args') \<noteq> Relay
        \<and> (entry st \<noteq> 0 \<longrightarrow>
             port (snd (do_run strtoul st args)) = snd (imx_run (port st) (entry st))))
   \<and> (strtoul a = entry st \<longrightarrow>
        main_loop strtoul fs st [''run''] = main_loop strtoul fs st [''run'', a])"
proof -
  have 1: "entry (initial_session ch) = 0"
    by (simp add: initial_session_def)
  have 3: "do_run strtoul st args = (Break NoEntryAddress, st)"
    if "length args < 2 \<or> strtoul (args ! 1) = 0" "entry st = 0"
    using that by (simp add: do_run_sentinel)
  have 4: "entry (snd (do_download strtoul fs st0 dargs)) = strtoul (dargs ! 2)"
    if "fst (do_download strtoul fs st0 dargs) = Next 3"
    using that unfolding do_download_cases [of strtoul fs st0 dargs]
    by (auto split: if_splits sum.splits)
  have 5: "snd (do_run strtoul st args) = snd (do_run strtoul st args')
        \<and> (\<forall>e. (fst (do_run strtoul st args) = Break e) =
                 (fst (do_run strtoul st args') = Break e))
        \<and> (fst (do_run strtoul st args) = Next 1) = (fst (do_run strtoul st args') = Next 2)
        \<and> fst (do_run strtoul st args) \<noteq> Relay \<and> fst (do_run strtoul st args') \<noteq> Relay
        \<and> (entry st \<noteq> 0 \<longrightarrow>
             port (snd (do_run strtoul st args)) = snd (imx_run (port st) (entry st)))"
    if s: "length args < 2 \<or> strtoul (args ! 1) = 0"
      and e: "2 \<le> length args'" "strtoul (args' ! 1) = entry st"
  proof (cases "entry st = 0")
    case True
    then have "do_run strtoul st args = (Break NoEntryAddress, st)"
      and "do_run strtoul st args' = (Break NoEntryAddress, st)"
      using s e by (simp_all add: do_run_sentinel)
    then show ?thesis using True by simp
  next
    case False
    show ?thesis
      unfolding do_run_sentinel [of args strtoul st, OF s]
        do_run_explicit [of args' strtoul "entry st" st, OF e False]
      using False by (cases "fst (imx_run (port st) (entry st))") simp_all
  qed
  show ?thesis
    using 1 3 4 5 dispatch_entry [of args strtoul fs st] main_loop_run_last [of strtoul a st fs]
    by blast
qed

theorem run_entry_address_witness:
  "do_run strtoul_ex (initial_session (device [Some 0x56787856, Some 0x88888888])) [''run'', ''0'']
     = (Break NoEntryAddress, initial_session (device [Some 0x56787856, Some 0x88888888]))
   \<and> snd (do_run strtoul_ex
        \<lparr>port = device [Some 0x56787856, Some 0x88888888], synced = True, entry = 0xC0000000\<rparr>
        [''run'', ''0'']) =
      snd (do_run strtoul_ex
        \<lparr>port = device [Some 0x56787856, Some 0x88888888], synced = True, entry = 0xC0000000\<rparr>
        [''run'', ''0xc0000000''])
   \<and> main_loop strtoul_ex fs_ex
        \<lparr>port = device [Some 0x56787856, Some 0x88888888], synced = True, entry = 0xC0000000\<rparr>
        [''run''] =
      main_loop strtoul_ex fs_ex
        \<lparr>port = device [Some 0x56787856, Some 0x88888888], synced = True, entry = 0xC0000000\<rparr>
        [''run'', ''0xc0000000'']"
  using run_entry_address [of "device [Some 0x56787856, Some 0x88888888]" "[''run'', ''0'']"
      strtoul_ex fs_ex "initial_session (device [Some 0x56787856, Some 0x88888888])"]
    run_entry_address [of "device []" "[''run'', ''0'']" strtoul_ex fs_ex
      "\<lparr>port = device [Some 0x56787856, Some 0x88888888], synced = True, entry = 0xC0000000\<rparr>"
      _ _ "[''run'', ''0xc0000000'']" "''0xc0000000''"]
  by (simp add: strtoul_ex_def initial_session_def)

text \<open>
  Claim C10. Whenever the \<^verbatim>\<open>download\<close> command stops the loop (too few words, sync
  failure, file not opened, a header acknowledgment short or wrong), \<open>entry\<close> is what it
  was before the command. When the command goes on to the next one, \<open>entry\<close> is the
  download address, the file was opened, and the port shows every block of the file
  acknowledged and sent.
\<close>

theorem entry_only_after_download:
  "(\<forall>e. fst (do_download strtoul fs st args) = Break e \<longrightarrow>
        entry (snd (do_download strtoul fs st args)) = entry st)
   \<and> fst (do_download strtoul fs st args) \<noteq> Relay
   \<and> (\<forall>n. fst (do_download strtoul fs st args) = Next n \<longrightarrow>
        n = 3 \<and> entry (snd (do_download strtoul fs st args)) = strtoul (args ! 2)
        \<and> (\<exists>bin. fs (args ! 1) = Some bin
              \<and> port (snd (do_download strtoul fs st args)) =
                  (port (snd (ensure_synced st)))
                    \<lparr>rx := drop (n_blocks (unat (of_nat (length bin) :: u32)))
                             (rx (port (snd (ensure_synced st)))),
                     trace := trace (port (snd (ensure_synced st)))
                       @ concat (map (block_events bin (strtoul (args ! 2))
                                        (unat (of_nat (length bin) :: u32)))
                                   [0..<n_blocks (unat (of_nat (length bin) :: u32))])\<rparr>))
   \<and> imx_download ch None addr = (Inl SourceUnavailable, ch)
   \<and> (hd args = ''download'' \<and> args \<noteq> [] \<longrightarrow>
        (\<forall>e. fst (do_download strtoul fs st args) = Break e \<longrightarrow>
           main_loop strtoul fs st args = (Aborted e, snd (do_download strtoul fs st args))
           \<and> entry (snd (main_loop strtoul fs st args)) = entry st))"
proof -
  let ?st1 = "snd (ensure_synced st)"
  let ?dl = "imx_download (port ?st1) (fs (args ! 1)) (strtoul (args ! 2))"
  have e1: "entry ?st1 = entry st"
    by (rule ensure_synced_entry)
  have A: "entry (snd (do_download strtoul fs st args)) = entry st"
    if "fst (do_download strtoul fs st args) = Break e" for e
    using that e1 unfolding do_download_cases [of strtoul fs st args]
    by (auto split: if_splits sum.splits)
  have B: "fst (do_download strtoul fs st args) \<noteq> Relay"
    unfolding do_download_cases [of strtoul fs st args]
    by (auto split: if_splits sum.splits)
  have C: "n = 3 \<and> entry (snd (do_download strtoul fs st args)) = strtoul (args ! 2)
        \<and> (\<exists>bin. fs (args ! 1) = Some bin
              \<and> port (snd (do_download strtoul fs st args)) =
                  (port ?st1)
                    \<lparr>rx := drop (n_blocks (unat (of_nat (length bin) :: u32))) (rx (port ?st1)),
                     trace := trace (port ?st1)
                       @ concat (map (block_events bin (strtoul (args ! 2))
                                        (unat (of_nat (length bin) :: u32)))
                                   [0..<n_blocks (unat (of_nat (length bin) :: u32))])\<rparr>)"
    if n: "fst (do_download strtoul fs st args) = Next n" for n
  proof -
    from n have ok: "fst ?dl = Inr ()" and n3: "n = 3"
      and en: "entry (snd (do_download strtoul fs st args)) = strtoul (args ! 2)"
      and po: "port (snd (do_download strtoul fs st args)) = snd ?dl"
      unfolding do_download_cases [of strtoul fs st args]
      by (auto split: if_splits sum.splits)
    from ok have "?dl = (Inr (), snd ?dl)"
      by (cases ?dl) simp
    from imx_download_Inr [OF this] po n3 en show ?thesis
      by auto
  qed
  have D: "imx_download ch None addr = (Inl SourceUnavailable, ch)"
    by (simp add: imx_download_def)
  have E: "main_loop strtoul fs st args = (Aborted e, snd (do_download strtoul fs st args))
           \<and> entry (snd (main_loop strtoul fs st args)) = entry st"
    if "hd args = ''download''" "args \<noteq> []" "fst (do_download strtoul fs st args) = Break e" for e
  proof -
    have "dispatch strtoul fs st args = (Break e, snd (do_download strtoul fs st args))"
      using that by (cases "do_download strtoul fs st args") (simp add: dispatch_download)
    then have "main_loop strtoul fs st args = (Aborted e, snd (do_download strtoul fs st args))"
      using that(2) by (simp add: main_loop.simps [of strtoul fs st args])
    then show ?thesis using A [OF that(3)] by simp
  qed
  show ?thesis
    using A B C D E by blast
qed

lemma chunk_examples: "chunk 4097 0 = 4096" "chunk 4097 4096 = 1"
  by (simp_all add: chunk_def CHUNK_SIZE_def)

lemma download_timeout_example:
  "download_loop \<lparr>rx = [Some 0x56787856, None], trace = []\<rparr> (replicate 4097 0x5A)
       0xC0000000 4097 0 =
     (Inl Timeout,
      \<lparr>rx = [],
       trace = [Write [4, 4, 0xC0, 0, 0, 0, 0, 0, 0, 0x10, 0, 0, 0, 0, 0, 0],
                Read4 (Some 0x56787856),
                Write (replicate 4096 0x5A),
                Progress 4096 4097,
                Write [4, 4, 0xC0, 0, 0x10, 0, 0, 0, 0, 0, 1, 0, 0, 0, 0, 0],
                Read4 None]\<rparr>)"
  apply (subst download_loop_step [where j = 0])
    apply simp
   apply simp
  apply (simp add: chunk_examples block_events_def blk_len_def wire_dwnl le32_def)
  apply (subst download_loop_step [where j = 1])
    apply simp
   apply simp
  apply (simp add: chunk_examples block_events_def blk_len_def wire_dwnl le32_def)
  done

lemma download_acked_example:
  "imx_download \<lparr>rx = [Some 0x56787856, Some 0x56787856], trace = []\<rparr>
       (Some (replicate 4097 0x5A)) 0xC0000000 =
     (Inr (),
      \<lparr>rx = [],
       trace = [Write [4, 4, 0xC0, 0, 0, 0, 0, 0, 0, 0x10, 0, 0, 0, 0, 0, 0],
                Read4 (Some 0x56787856),
                Write (replicate 4096 0x5A),
                Progress 4096 4097,
                Write [4, 4, 0xC0, 0, 0x10, 0, 0, 0, 0, 0, 1, 0, 0, 0, 0, 0],
                Read4 (Some 0x56787856),
                Write [0x5A],
                Progress 4097 4097]\<rparr>)"
proof -
  have n: "n_blocks 4097 = 2" by (simp add: n_blocks_def)
  have u: "[0..<2] = [0, 1]" by (simp add: upt_conv_Cons numeral_2_eq_2)
  have l: "unat (of_nat (length (replicate 4097 (0x5A :: byte))) :: u32) = 4097" by simp
  have a: "take (n_blocks (unat (of_nat (length (replicate 4097 (0x5A :: byte))) :: u32)))
        (rx \<lparr>rx = [Some 0x56787856, Some 0x56787856], trace = []\<rparr>) =
      replicate (n_blocks (unat (of_nat (length (replicate 4097 (0x5A :: byte))) :: u32)))
        (Some 0x56787856)"
    by (simp only: l n) (simp add: numeral_2_eq_2)
  show ?thesis
    using imx_download_acked [OF a, of "0xC0000000"]
    by (simp only: l n u) (simp add: block_events_def blk_len_def wire_dwnl le32_def)
qed

theorem entry_only_after_download_witness:
  "do_download strtoul_ex fs_ex
      \<lparr>port = device [Some 0x56787856, None], synced = True, entry = 0x80000000\<rparr>
      [''download'', ''img.bin'', ''0xc0000000''] =
     (Break Timeout,
      \<lparr>port = \<lparr>rx = [],
                trace = [Write [4, 4, 0xC0, 0, 0, 0, 0, 0, 0, 0x10, 0, 0, 0, 0, 0, 0],
                         Read4 (Some 0x56787856),
                         Write (replicate 4096 0x5A),
                         Progress 4096 4097,
                         Write [4, 4, 0xC0, 0, 0x10, 0, 0, 0, 0, 0, 1, 0, 0, 0, 0, 0],
                         Read4 None]\<rparr>,
       synced = True, entry = 0x80000000\<rparr>)
   \<and> entry (snd (main_loop strtoul_ex fs_ex
        \<lparr>port = device [Some 0x56787856, None], synced = True, entry = 0x80000000\<rparr>
        [''download'', ''img.bin'', ''0xc0000000''])) = 0x80000000
   \<and> fst (do_download strtoul_ex fs_ex
        \<lparr>port = device [Some 0x56787856, Some 0x56787856], synced = True, entry = 0x80000000\<rparr>
        [''download'', ''img.bin'', ''0xc0000000'']) = Next 3
   \<and> entry (snd (do_download strtoul_ex fs_ex
        \<lparr>port = device [Some 0x56787856, Some 0x56787856], synced = True, entry = 0x80000000\<rparr>
        [''download'', ''img.bin'', ''0xc0000000''])) = 0xC0000000"
proof -
  have f: "do_download strtoul_ex fs_ex
      \<lparr>port = device [Some 0x56787856, None], synced = True, entry = 0x80000000\<rparr>
      [''download'', ''img.bin'', ''0xc0000000''] =
     (Break Timeout,
      \<lparr>port = \<lparr>rx = [],
                trace = [Write [4, 4, 0xC0, 0, 0, 0, 0, 0, 0, 0x10, 0, 0, 0, 0, 0, 0],
                         Read4 (Some 0x56787856),
                         Write (replicate 4096 0x5A),
                         Progress 4096 4097,
                         Write [4, 4, 0xC0, 0, 0x10, 0, 0, 0, 0, 0, 1, 0, 0, 0, 0, 0],
                         Read4 None]\<rparr>,
       synced = True, entry = 0x80000000\<rparr>)"
    by (simp add: do_download_def ensure_synced_def imx_download_def fs_ex_def strtoul_ex_def
        device_def download_timeout_example)
  have s: "do_download strtoul_ex fs_ex
        \<lparr>port = device [Some 0x56787856, Some 0x56787856], synced = True, entry = 0x80000000\<rparr>
        [''download'', ''img.bin'', ''0xc0000000''] =
     (Next 3,
      \<lparr>port = \<lparr>rx = [],
                trace = [Write [4, 4, 0xC0, 0, 0, 0, 0, 0, 0, 0x10, 0, 0, 0, 0, 0, 0],
                         Read4 (Some 0x56787856),
                         Write (replicate 4096 0x5A),
                         Progress 4096 4097,
                         Write [4, 4, 0xC0, 0, 0x10, 0, 0, 0, 0, 0, 1, 0, 0, 0, 0, 0],
                         Read4 (Some 0x56787856),
                         Write [0x5A],
                         Progress 4097 4097]\<rparr>,
       synced = True, entry = 0xC0000000\<rparr>)"
    by (simp add: do_download_def ensure_synced_def fs_ex_def strtoul_ex_def
        device_def download_acked_example)
  show ?thesis
    using entry_only_after_download [of strtoul_ex fs_ex
        "\<lparr>port = device [Some 0x56787856, None], synced = True, entry = 0x80000000\<rparr>"
        "[''download'', ''img.bin'', ''0xc0000000'']"]
      entry_only_after_download [of strtoul_ex fs_ex
        "\<lparr>port = device [Some 0x56787856, Some 0x56787856], synced = True, entry = 0x80000000\<rparr>"
        "[''download'', ''img.bin'', ''0xc0000000'']"]
    unfolding f s by simp
qed

end
